theory Spec2Isabelle
  imports Complex_Main "HOL-Library.Word" "HOL-Library.AList"
begin

section \<open>Telemetry packet codec of the ground station (packets.py)\<close>

text \<open>
  The decoders of \<^verbatim>\<open>packets.py\<close> are embedded as HOL functions. A Python string is a
  \<^typ>\<open>string\<close>, a Python integer an \<^typ>\<open>int\<close>, an exception a value of
  \<open>py_error\<close> on the left of a sum. Python floats are embedded as the exact
  \<^typ>\<open>real\<close> value of the expression: rounding is not part of the model.
\<close>

subsection \<open>Exceptions\<close>

text \<open>
  \<open>LengthValueError\<close> is the \<^verbatim>\<open>ValueError\<close> raised by the \<^verbatim>\<open>__convert_raw\<close> length
  checks, \<open>LiteralValueError\<close> the \<^verbatim>\<open>ValueError\<close> raised by \<^verbatim>\<open>int(s, base)\<close> on a
  string that is no literal; \<open>KeyError\<close> is a failed dictionary lookup,
  \<open>IndexError\<close> a string index out of range, \<open>TypeError\<close> an operation on a
  value of the wrong type and \<open>ZeroDivisionError\<close> a division by zero.
\<close>

datatype py_error =
  LengthValueError | LiteralValueError | KeyError | IndexError | TypeError | ZeroDivisionError

definition bind :: "py_error + 'a \<Rightarrow> ('a \<Rightarrow> py_error + 'b) \<Rightarrow> py_error + 'b" where
  "bind m f = (case m of Inl e \<Rightarrow> Inl e | Inr v \<Rightarrow> f v)"

subsection \<open>Python built-ins used by the codec\<close>

text \<open>The slice \<^verbatim>\<open>s[a:b]\<close> for non-negative bounds; \<^verbatim>\<open>s[a:]\<close> is \<^term>\<open>drop a s\<close>.\<close>

definition slice :: "'a list \<Rightarrow> nat \<Rightarrow> nat \<Rightarrow> 'a list" where
  "slice s a b = take (b - a) (drop a s)"

text \<open>The index \<^verbatim>\<open>s[i]\<close> for a non-negative index.\<close>

definition index :: "'a list \<Rightarrow> nat \<Rightarrow> py_error + 'a" where
  "index s i = (if i < length s then Inr (s ! i) else Inl IndexError)"

text \<open>The value of one digit in a base up to 16, upper and lower case alike.\<close>

definition digit_val :: "char \<Rightarrow> nat option" where
  "digit_val c = map_of
     [(CHR ''0'', 0), (CHR ''1'', 1), (CHR ''2'', 2), (CHR ''3'', 3), (CHR ''4'', 4),
      (CHR ''5'', 5), (CHR ''6'', 6), (CHR ''7'', 7), (CHR ''8'', 8), (CHR ''9'', 9),
      (CHR ''a'', 10), (CHR ''b'', 11), (CHR ''c'', 12), (CHR ''d'', 13), (CHR ''e'', 14),
      (CHR ''f'', 15), (CHR ''A'', 10), (CHR ''B'', 11), (CHR ''C'', 12), (CHR ''D'', 13),
      (CHR ''E'', 14), (CHR ''F'', 15)] c"

definition is_digit :: "nat \<Rightarrow> char \<Rightarrow> bool" where
  "is_digit base c = (case digit_val c of None \<Rightarrow> False | Some d \<Rightarrow> d < base)"

text \<open>The number written by a digit string, most significant digit first.\<close>

fun digits_val :: "nat \<Rightarrow> nat \<Rightarrow> string \<Rightarrow> nat" where
  "digits_val base acc [] = acc"
| "digits_val base acc (c # cs) = digits_val base (acc * base + the (digit_val c)) cs"

text \<open>
  \<^verbatim>\<open>int(s, base)\<close> for base 2 and 16, on the literals the codec meets: an optional
  base prefix (\<^verbatim>\<open>0x\<close>, \<^verbatim>\<open>0X\<close> for 16, \<^verbatim>\<open>0b\<close>, \<^verbatim>\<open>0B\<close> for 2) and then at least one
  digit. Every other string is a \<^verbatim>\<open>ValueError\<close> here; the signs, blanks and
  underscores that Python accepts as well are outside the modelled fragment.
\<close>

definition base_prefixes :: "nat \<Rightarrow> string list" where
  "base_prefixes base =
     (if base = 16 then [''0x'', ''0X''] else if base = 2 then [''0b'', ''0B''] else [])"

definition py_int :: "string \<Rightarrow> nat \<Rightarrow> py_error + int" where
  "py_int s base =
     (let ds = (if take 2 s \<in> set (base_prefixes base) then drop 2 s else s)
      in if ds \<noteq> [] \<and> list_all (is_digit base) ds
         then Inr (int (digits_val base 0 ds)) else Inl LiteralValueError)"

text \<open>The digits of a natural number, most significant first, no leading zero.\<close>

definition digit_char :: "nat \<Rightarrow> char" where
  "digit_char d = ''0123456789abcdef'' ! d"

fun nat_digits :: "nat \<Rightarrow> nat \<Rightarrow> string" where
  "nat_digits base n =
     (if base < 2 \<or> n < base then [digit_char n]
      else nat_digits base (n div base) @ [digit_char (n mod base)])"

declare nat_digits.simps [simp del]

text \<open>\<^verbatim>\<open>hex(n)\<close> and \<^verbatim>\<open>bin(n)\<close>.\<close>

definition py_hex :: "int \<Rightarrow> string" where
  "py_hex n = (if n < 0 then ''-0x'' @ nat_digits 16 (nat (- n)) else ''0x'' @ nat_digits 16 (nat n))"

definition py_bin :: "int \<Rightarrow> string" where
  "py_bin n = (if n < 0 then ''-0b'' @ nat_digits 2 (nat (- n)) else ''0b'' @ nat_digits 2 (nat n))"

subsection \<open>Conversion tables\<close>

definition hex_bin_dic :: "char \<rightharpoonup> string" where
  "hex_bin_dic = map_of
     [(CHR ''0'', ''0000''), (CHR ''1'', ''0001''), (CHR ''2'', ''0010''), (CHR ''3'', ''0011''),
      (CHR ''4'', ''0100''), (CHR ''5'', ''0101''), (CHR ''6'', ''0110''), (CHR ''7'', ''0111''),
      (CHR ''8'', ''1000''), (CHR ''9'', ''1001''), (CHR ''A'', ''1010''), (CHR ''B'', ''1011''),
      (CHR ''C'', ''1100''), (CHR ''D'', ''1101''), (CHR ''E'', ''1110''), (CHR ''F'', ''1111''),
      (CHR ''a'', ''1010''), (CHR ''b'', ''1011''), (CHR ''c'', ''1100''), (CHR ''d'', ''1101''),
      (CHR ''e'', ''1110''), (CHR ''f'', ''1111'')]"

definition kx134_1211_dic :: "string \<rightharpoonup> real" where
  "kx134_1211_dic = map_of
     [(''0x0'', 781 / 1000), (''0x1'', 1563 / 1000), (''0x2'', 3125 / 1000), (''0x3'', 625 / 100),
      (''0x4'', 125 / 10), (''0x5'', 25), (''0x6'', 50), (''0x7'', 100), (''0x8'', 200),
      (''0x9'', 400), (''0xA'', 800), (''0xB'', 1600), (''0xC'', 3200), (''0xD'', 6400),
      (''0xE'', 12800), (''0xF'', 25600), (''0xa'', 800), (''0xb'', 1600), (''0xc'', 3200),
      (''0xd'', 6400), (''0xe'', 12800), (''0xf'', 25600)]"

subsection \<open>Conversion functions\<close>

definition hex_str_to_int :: "string \<Rightarrow> py_error + int" where
  "hex_str_to_int hex_string = py_int hex_string 16"

text \<open>The loop of \<^verbatim>\<open>hex_to_bin\<close>: one table lookup for each character, in order.\<close>

fun hex_to_bin_loop :: "string \<Rightarrow> string \<Rightarrow> py_error + string" where
  "hex_to_bin_loop converted_string [] = Inr converted_string"
| "hex_to_bin_loop converted_string (char # rest) =
     (case hex_bin_dic char of
        None \<Rightarrow> Inl KeyError
      | Some b \<Rightarrow> hex_to_bin_loop (converted_string @ b) rest)"

definition hex_to_bin :: "string \<Rightarrow> py_error + string" where
  "hex_to_bin hex_string =
     hex_to_bin_loop '''' (if slice hex_string 0 2 = ''0x'' then drop 2 hex_string else hex_string)"

definition signed_hex_str_to_int :: "string \<Rightarrow> py_error + int" where
  "signed_hex_str_to_int hex_string =
     bind (hex_to_bin hex_string) (\<lambda>bin_input.
     bind (index bin_input 0) (\<lambda>msb.
       if msb = CHR ''1''
       then bind (py_int (drop 1 bin_input) 2) (\<lambda>v. Inr (v - 2 ^ (length bin_input - 1)))
       else py_int (drop 1 bin_input) 2))"

definition signed_bin_str_to_int :: "string \<Rightarrow> py_error + int" where
  "signed_bin_str_to_int bin_string =
     bind (py_int bin_string 2) (\<lambda>n. signed_hex_str_to_int (py_hex n))"


subsection \<open>AltitudeData\<close>

record AltitudeData =
  time :: int
  pressure :: real
  temperature :: real
  altitude :: real

definition AltitudeData_convert_raw :: "string \<Rightarrow> py_error + int" where
  "AltitudeData_convert_raw raw_data =
     (if length raw_data \<noteq> 8 then Inl LengthValueError else hex_str_to_int raw_data)"

text \<open>
  \<^verbatim>\<open>create_from_raw\<close> runs the four setters in order; an exception in one of them leaves
  the function, and the packet built so far is not returned.
\<close>

definition AltitudeData_create_from_raw :: "string \<Rightarrow> py_error + AltitudeData" where
  "AltitudeData_create_from_raw raw_data =
     bind (AltitudeData_convert_raw (slice raw_data 0 8)) (\<lambda>t.
     bind (AltitudeData_convert_raw (slice raw_data 8 16)) (\<lambda>p.
     bind (AltitudeData_convert_raw (slice raw_data 16 24)) (\<lambda>c.
     bind (AltitudeData_convert_raw (slice raw_data 24 32)) (\<lambda>a.
       Inr \<lparr>AltitudeData.time = t,
            AltitudeData.pressure = real_of_int p / 1000,
            AltitudeData.temperature = real_of_int c / 1000,
            AltitudeData.altitude = real_of_int a / 1000\<rparr>))))"

subsection \<open>AccelerationData and AngularVelocityData\<close>

text \<open>
  The full-scale range and the axes are Python numbers that may be floats. A float is
  embedded as its exact real value while that is finite; \<open>NotFinite\<close> stands for the
  floats \<^verbatim>\<open>inf\<close> and \<^verbatim>\<open>nan\<close>. A float operation overflows to \<^verbatim>\<open>inf\<close> when its exact result
  reaches \<open>2 ^ 1024\<close>, and an operation on \<^verbatim>\<open>inf\<close> or \<^verbatim>\<open>nan\<close> by a finite number gives
  \<^verbatim>\<open>inf\<close> or \<^verbatim>\<open>nan\<close> again. Rounding below the overflow is not part of the model; the
  decoders only meet integers below \<open>2 ^ 16\<close> and their products by powers of two, which
  floats hold exactly.
\<close>

datatype number = Finite real | NotFinite

definition float_result :: "real \<Rightarrow> number" where
  "float_result x = (if \<bar>x\<bar> < 2 ^ 1024 then Finite x else NotFinite)"

definition num_mul :: "number \<Rightarrow> number \<Rightarrow> number" where
  "num_mul a b =
     (case a of NotFinite \<Rightarrow> NotFinite
      | Finite x \<Rightarrow> (case b of NotFinite \<Rightarrow> NotFinite | Finite y \<Rightarrow> float_result (x * y)))"

definition num_div :: "number \<Rightarrow> real \<Rightarrow> number" where
  "num_div a d = (case a of NotFinite \<Rightarrow> NotFinite | Finite x \<Rightarrow> float_result (x / d))"

text \<open>
  \<^verbatim>\<open>n // 2 ** k\<close>. For \<open>0 \<le> k\<close> the power is an \<^verbatim>\<open>int\<close> and the result the floor of the
  quotient. For \<open>k < 0\<close> the power is the float \<open>2 ^ k\<close>: below \<open>2 ^ (- 1074)\<close>, the least
  positive float, it is \<^verbatim>\<open>0.0\<close> and the division raises \<^verbatim>\<open>ZeroDivisionError\<close>; otherwise
  the result is the float \<open>n * 2 ^ (- k)\<close>, an integer, or \<^verbatim>\<open>inf\<close> when that overflows.
\<close>

definition floordiv_pow2 :: "int \<Rightarrow> int \<Rightarrow> py_error + number" where
  "floordiv_pow2 n k =
     (if 0 \<le> k then Inr (Finite (real_of_int (n div 2 ^ nat k)))
      else if k < - 1074 then Inl ZeroDivisionError
      else Inr (float_result (real_of_int n * 2 ^ nat (- k))))"

record AccelerationData =
  resolution :: int
  time :: int
  fsr :: number
  x_axis :: number
  y_axis :: number
  z_axis :: number

definition AccelerationData_convert_raw :: "string \<Rightarrow> nat \<Rightarrow> py_error + int" where
  "AccelerationData_convert_raw raw_data hex_length =
     (if length raw_data \<noteq> hex_length then Inl LengthValueError else hex_str_to_int raw_data)"

definition AccelerationData_set_fsr :: "int \<Rightarrow> string \<Rightarrow> py_error + number" where
  "AccelerationData_set_fsr res raw_fsr =
     (let adjustment_factor = 16 - res + 1
      in bind (AccelerationData_convert_raw raw_fsr 4) (\<lambda>unadjusted_fsr.
           floordiv_pow2 unadjusted_fsr adjustment_factor))"

text \<open>\<^verbatim>\<open>convert_raw(raw_axis) * self.fsr / 2 ** 15\<close>: the product first, then the quotient.\<close>

definition AccelerationData_set_axis :: "number \<Rightarrow> string \<Rightarrow> py_error + number" where
  "AccelerationData_set_axis fsr_val raw_axis =
     bind (AccelerationData_convert_raw raw_axis 4) (\<lambda>v.
       Inr (num_div (num_mul (Finite (real_of_int v)) fsr_val) (2 ^ 15)))"

definition AccelerationData_create_from_raw :: "string \<Rightarrow> int \<Rightarrow> py_error + AccelerationData" where
  "AccelerationData_create_from_raw raw_data res =
     bind (AccelerationData_convert_raw (slice raw_data 0 8) 8) (\<lambda>t.
     bind (AccelerationData_set_fsr res (slice raw_data 8 12)) (\<lambda>f.
     bind (AccelerationData_set_axis f (slice raw_data 12 16)) (\<lambda>x.
     bind (AccelerationData_set_axis f (slice raw_data 16 20)) (\<lambda>y.
     bind (AccelerationData_set_axis f (slice raw_data 20 24)) (\<lambda>z.
       Inr \<lparr>AccelerationData.resolution = res,
            AccelerationData.time = t,
            AccelerationData.fsr = f,
            AccelerationData.x_axis = x,
            AccelerationData.y_axis = y,
            AccelerationData.z_axis = z\<rparr>)))))"

record AngularVelocityData =
  time_stamp :: int
  fsr :: number
  x_velocity :: number
  y_velocity :: number
  z_velocity :: number

definition AngularVelocityData_set_fsr :: "string \<Rightarrow> int \<Rightarrow> py_error + number" where
  "AngularVelocityData_set_fsr raw res =
     bind (hex_str_to_int (slice raw 8 12)) (\<lambda>unadjusted_fsr.
       let adjustment_factor = 16 - (res + 1)
       in floordiv_pow2 unadjusted_fsr adjustment_factor)"

text \<open>\<^verbatim>\<open>measurement * (self.fsr / (2 ** 15))\<close>: the quotient first, then the product.\<close>

definition AngularVelocityData_set_velocity :: "number \<Rightarrow> string \<Rightarrow> py_error + number" where
  "AngularVelocityData_set_velocity fsr_val raw_field =
     bind (hex_str_to_int raw_field) (\<lambda>measurement.
       Inr (num_mul (Finite (real_of_int measurement)) (num_div fsr_val (2 ^ 15))))"

definition AngularVelocityData_init :: "string \<Rightarrow> int \<Rightarrow> py_error + AngularVelocityData" where
  "AngularVelocityData_init raw res =
     bind (hex_str_to_int (slice raw 0 8)) (\<lambda>t.
     bind (AngularVelocityData_set_fsr raw res) (\<lambda>f.
     bind (AngularVelocityData_set_velocity f (slice raw 12 16)) (\<lambda>x.
     bind (AngularVelocityData_set_velocity f (slice raw 16 20)) (\<lambda>y.
     bind (AngularVelocityData_set_velocity f (slice raw 20 24)) (\<lambda>z.
       Inr \<lparr>AngularVelocityData.time_stamp = t,
            AngularVelocityData.fsr = f,
            AngularVelocityData.x_velocity = x,
            AngularVelocityData.y_velocity = y,
            AngularVelocityData.z_velocity = z\<rparr>)))))"

subsection \<open>GNSSMetaData\<close>

record Info =
  elevation :: int
  SNR :: int
  ID :: int
  azimuth :: int
  type :: string

definition Info_setup :: "string \<Rightarrow> py_error + Info" where
  "Info_setup raw =
     bind (py_int (slice raw 0 8) 2) (\<lambda>e.
     bind (py_int (slice raw 8 16) 2) (\<lambda>s.
     bind (py_int (slice raw 16 21) 2) (\<lambda>i.
     bind (py_int (slice raw 21 30) 2) (\<lambda>a.
     bind (index raw 31) (\<lambda>t.
       Inr \<lparr>Info.elevation = e, Info.SNR = s, Info.ID = i, Info.azimuth = a,
            Info.type = (if t = CHR ''1'' then ''GLONASS'' else ''GPS'')\<rparr>)))))"

text \<open>
  The dictionary \<^verbatim>\<open>sat_info\<close> is an association list in insertion order; storing under a
  key that is present replaces the value in place, as a Python \<^verbatim>\<open>dict\<close> does.
\<close>

record GNSSMetaData =
  mission_time :: int
  gps_sats_in_use :: "int list"
  glonass_sats_in_use :: "int list"
  sat_info :: "(int \<times> Info) list"

text \<open>The loop over \<^verbatim>\<open>range(32)\<close> that collects the satellites in use.\<close>

fun sats_in_use_loop ::
  "string \<Rightarrow> string \<Rightarrow> nat list \<Rightarrow> int list \<times> int list \<Rightarrow> py_error + int list \<times> int list" where
  "sats_in_use_loop bin_GPS bin_GLONASS [] st = Inr st"
| "sats_in_use_loop bin_GPS bin_GLONASS (i # rest) (gps, glonass) =
     bind (index bin_GPS i) (\<lambda>g.
     bind (index bin_GLONASS i) (\<lambda>l.
       sats_in_use_loop bin_GPS bin_GLONASS rest
         (if g = CHR ''1'' then gps @ [int i + 1] else gps,
          if l = CHR ''1'' then glonass @ [int i + 1] else glonass)))"

text \<open>The loop over \<^verbatim>\<open>range(num_sats)\<close> that fills the dictionary.\<close>

fun sat_info_loop ::
  "string \<Rightarrow> nat list \<Rightarrow> (int \<times> Info) list \<Rightarrow> py_error + (int \<times> Info) list" where
  "sat_info_loop bits [] d = Inr d"
| "sat_info_loop bits (i # rest) d =
     bind (Info_setup (slice bits (i * 32) (i * 32 + 32))) (\<lambda>meta_data.
       sat_info_loop bits rest (AList.update (Info.ID meta_data) meta_data d))"

definition GNSSMetaData_setup :: "string \<Rightarrow> py_error + GNSSMetaData" where
  "GNSSMetaData_setup raw =
     bind (hex_str_to_int (slice raw 0 8)) (\<lambda>t.
     bind (py_int raw 16) (\<lambda>n.
       let bin_raw = py_bin n;
           bin_GPS_sats_in_use = slice bin_raw 34 66;
           bin_GLONASS_sats_in_use = slice bin_raw 66 98
       in bind (sats_in_use_loop bin_GPS_sats_in_use bin_GLONASS_sats_in_use [0 ..< 32] ([], []))
            (\<lambda>(gps, glonass).
          let bits = drop 98 bin_raw;
              num_sats = length bits div 32
          in bind (sat_info_loop bits [0 ..< num_sats] []) (\<lambda>d.
               Inr \<lparr>GNSSMetaData.mission_time = t,
                    GNSSMetaData.gps_sats_in_use = gps,
                    GNSSMetaData.glonass_sats_in_use = glonass,
                    GNSSMetaData.sat_info = d\<rparr>))))"

subsection \<open>GNSSLocationData\<close>

record GNSSLocationData =
  fix_time :: int
  latitude :: int
  longitude :: int
  utc_time :: int
  altitude :: int
  rocket_speed :: int
  rocket_course :: int
  pdop :: int
  hdop :: int
  vdop :: int
  num_sats :: int
  fix_type :: string



subsection \<open>KX1341211Data\<close>

text \<open>The three readings of a measurement stay \<^verbatim>\<open>None\<close> when \<^verbatim>\<open>setup\<close> sets none.\<close>

record Measurement =
  x_accel :: "int option"
  y_accel :: "int option"
  z_accel :: "int option"

definition Measurement_setup :: "string \<Rightarrow> py_error + Measurement" where
  "Measurement_setup raw =
     (if length raw = 24 then
        bind (signed_bin_str_to_int (slice raw 0 8)) (\<lambda>x.
        bind (signed_bin_str_to_int (slice raw 8 16)) (\<lambda>y.
        bind (signed_bin_str_to_int (slice raw 16 24)) (\<lambda>z.
          Inr \<lparr>Measurement.x_accel = Some x, Measurement.y_accel = Some y,
               Measurement.z_accel = Some z\<rparr>)))
      else if length raw = 48 then
        bind (py_int (slice raw 0 16) 2) (\<lambda>x.
        bind (py_int (slice raw 16 32) 2) (\<lambda>y.
        bind (py_int (slice raw 32 48) 2) (\<lambda>z.
          Inr \<lparr>Measurement.x_accel = Some x, Measurement.y_accel = Some y,
               Measurement.z_accel = Some z\<rparr>)))
      else Inr \<lparr>Measurement.x_accel = None, Measurement.y_accel = None,
                Measurement.z_accel = None\<rparr>)"

text \<open>\<^verbatim>\<open>corner_freq\<close> stays \<^verbatim>\<open>None\<close> when bit 38 is neither \<^verbatim>\<open>'0'\<close> nor \<^verbatim>\<open>'1'\<close>.\<close>

record KX1341211Data =
  time_stamp :: int
  data_rate :: real
  full_scale_range :: int
  corner_freq :: "real option"
  measurements :: "Measurement list"

text \<open>\<^verbatim>\<open>range(0, stop, step)\<close> for a positive step.\<close>

definition range_step :: "int \<Rightarrow> nat \<Rightarrow> nat list" where
  "range_step stop step = map (\<lambda>k. k * step) [0 ..< (nat stop + step - 1) div step]"

definition full_scale_range_of :: "int \<Rightarrow> int" where
  "full_scale_range_of code =
     (if code = 0 then 8 else if code = 1 then 16 else if code = 2 then 32
      else if code = 3 then 64 else - 1)"

definition corner_freq_of :: "char \<Rightarrow> real \<Rightarrow> real option" where
  "corner_freq_of c rate =
     (if c = CHR ''0'' then Some (rate / 9) else if c = CHR ''1'' then Some (rate / 2) else None)"

text \<open>
  The local \<^verbatim>\<open>resolution\<close>: 8 or 16; for another character it stays a string, and the
  \<^verbatim>\<open>range\<close> over \<^verbatim>\<open>chunk_size\<close> raises a \<^verbatim>\<open>TypeError\<close>.
\<close>

definition resolution_of :: "char \<Rightarrow> py_error + nat" where
  "resolution_of c =
     (if c = CHR ''0'' then Inr 8 else if c = CHR ''1'' then Inr 16 else Inl TypeError)"

text \<open>The loop that appends one \<^verbatim>\<open>Measurement\<close> for each chunk.\<close>

fun measurements_loop :: "string list \<Rightarrow> Measurement list \<Rightarrow> py_error + Measurement list" where
  "measurements_loop [] ms = Inr ms"
| "measurements_loop (data # rest) ms =
     bind (Measurement_setup data) (\<lambda>m. measurements_loop rest (ms @ [m]))"

definition accel_chunks :: "string \<Rightarrow> int \<Rightarrow> nat \<Rightarrow> string list" where
  "accel_chunks accel_data padding chunk_size =
     map (\<lambda>i. slice accel_data i (i + chunk_size))
       (range_step (int (length accel_data) - padding) chunk_size)"

definition KX1341211Data_setup :: "string \<Rightarrow> py_error + KX1341211Data" where
  "KX1341211Data_setup raw =
     bind (hex_to_bin raw) (\<lambda>raw_bin.
     bind (py_int (slice raw_bin 0 32) 2) (\<lambda>ts.
     bind (py_int (slice raw_bin 32 36) 2) (\<lambda>rate_code.
     bind (case kx134_1211_dic (py_hex rate_code) of None \<Rightarrow> Inl KeyError | Some r \<Rightarrow> Inr r)
       (\<lambda>rate.
     bind (py_int (slice raw_bin 36 38) 2) (\<lambda>fsr_code.
     bind (index raw_bin 38) (\<lambda>cf.
     bind (index raw_bin 39) (\<lambda>rs.
     bind (py_int (slice raw_bin 46 48) 2) (\<lambda>padding_code.
     bind (resolution_of rs) (\<lambda>res.
       let padding = padding_code * 8;
           accel_data = drop 48 raw_bin;
           chunk_size = res * 3
       in bind (measurements_loop (accel_chunks accel_data padding chunk_size) []) (\<lambda>ms.
            Inr \<lparr>KX1341211Data.time_stamp = ts,
                 KX1341211Data.data_rate = rate,
                 KX1341211Data.full_scale_range = full_scale_range_of fsr_code,
                 KX1341211Data.corner_freq = corner_freq_of cf rate,
                 KX1341211Data.measurements = ms\<rparr>))))))))))"

subsection \<open>Reference notions of the specification\<close>

text \<open>
  The definitions of this subsection follow the words of the specification, not the
  code; the decoders are compared with them.
\<close>

text \<open>A payload is a string of hexadecimal digits.\<close>

definition hex_digits :: "string \<Rightarrow> bool" where
  "hex_digits h = list_all (is_digit 16) h"

text \<open>The \<open>w\<close>-bit binary expansion of a number, most significant bit first.\<close>

fun nat_bits :: "nat \<Rightarrow> nat \<Rightarrow> string" where
  "nat_bits 0 n = []"
| "nat_bits (Suc w) n = nat_bits w (n div 2) @ [if odd n then CHR ''1'' else CHR ''0'']"

text \<open>The full bitstring of a payload: four bits for each nibble, nothing trimmed.\<close>

definition spec_hex_to_bits :: "string \<Rightarrow> string" where
  "spec_hex_to_bits h = concat (map (\<lambda>c. nat_bits 4 (the (digit_val c))) h)"

text \<open>The base-2 reading of a bitstring, most significant bit first.\<close>

definition spec_unsigned_from_bits :: "string \<Rightarrow> int" where
  "spec_unsigned_from_bits bits = foldl (\<lambda>acc b. 2 * acc + (if b = CHR ''1'' then 1 else 0)) 0 bits"

text \<open>Two's complement over the exact width of the bitstring.\<close>

definition spec_signed_from_bits :: "string \<Rightarrow> int" where
  "spec_signed_from_bits bits =
     (if take 1 bits = ''1''
      then spec_unsigned_from_bits (drop 1 bits) - 2 ^ (length bits - 1)
      else spec_unsigned_from_bits (drop 1 bits))"

text \<open>The two's-complement encoding of \<open>v\<close> in \<open>w\<close> bits.\<close>

definition spec_bits_of :: "int \<Rightarrow> nat \<Rightarrow> string" where
  "spec_bits_of v w = nat_bits w (nat (v mod 2 ^ w))"

text \<open>The standard two's-complement value of an unsigned \<open>w\<close>-bit number.\<close>

definition twos_complement :: "nat \<Rightarrow> int \<Rightarrow> int" where
  "twos_complement w v = (if 2 ^ (w - 1) \<le> v then v - 2 ^ w else v)"

text \<open>
  The shift \<open>u >> k\<close> read as the floor division of \<open>u\<close> by the power of two \<open>2 ^ k\<close>:
  for a negative \<open>k\<close> that is the product of \<open>u\<close> by \<open>2 ^ (- k)\<close>.
\<close>

definition spec_shift :: "int \<Rightarrow> int \<Rightarrow> real" where
  "spec_shift u k =
     (if 0 \<le> k then real_of_int (drop_bit (nat k) u) else real_of_int u * 2 ^ nat (- k))"

text \<open>The data rates of the KX134-1211 in Hz, by code.\<close>

definition spec_data_rate :: "real list" where
  "spec_data_rate =
     [781 / 1000, 1563 / 1000, 3125 / 1000, 625 / 100, 125 / 10, 25, 50, 100, 200, 400, 800,
      1600, 3200, 6400, 12800, 25600]"

text \<open>
  The sample region of a KX134 payload as the specification describes it: the bits from
  48 on, less the trailing padding bits; and its chunks: the full chunks of \<open>c\<close> bits in
  order, a trailing partial chunk being dropped.
\<close>

definition spec_sample_region :: "string \<Rightarrow> nat \<Rightarrow> string" where
  "spec_sample_region bits padding = take (length bits - 48 - padding) (drop 48 bits)"

definition spec_full_chunks :: "string \<Rightarrow> nat \<Rightarrow> string list" where
  "spec_full_chunks region c = map (\<lambda>k. slice region (k * c) (k * c + c)) [0 ..< length region div c]"

text \<open>
  The measurement of a chunk: three signed 8-bit samples for a chunk of 24 bits, three
  unsigned 16-bit samples for a chunk of 48 bits, and no sample for any other chunk.
\<close>

definition spec_measurement :: "string \<Rightarrow> Measurement" where
  "spec_measurement chunk =
     (if length chunk = 24 then
        \<lparr>Measurement.x_accel = Some (spec_signed_from_bits (slice chunk 0 8)),
         Measurement.y_accel = Some (spec_signed_from_bits (slice chunk 8 16)),
         Measurement.z_accel = Some (spec_signed_from_bits (slice chunk 16 24))\<rparr>
      else if length chunk = 48 then
        \<lparr>Measurement.x_accel = Some (spec_unsigned_from_bits (slice chunk 0 16)),
         Measurement.y_accel = Some (spec_unsigned_from_bits (slice chunk 16 32)),
         Measurement.z_accel = Some (spec_unsigned_from_bits (slice chunk 32 48))\<rparr>
      else \<lparr>Measurement.x_accel = None, Measurement.y_accel = None,
             Measurement.z_accel = None\<rparr>)"

text \<open>A chunk none of whose 8-bit samples has an unsigned value from 8 to 15.\<close>

definition no_sample_in_8_15 :: "string \<Rightarrow> bool" where
  "no_sample_in_8_15 chunk =
     (length chunk \<noteq> 24 \<or>
      list_all (\<lambda>a. \<not> (8 \<le> spec_unsigned_from_bits (slice chunk a (a + 8)) \<and>
                        spec_unsigned_from_bits (slice chunk a (a + 8)) < 16)) [0, 8, 16])"

text \<open>The satellites of a 32-slot bitmap: bit \<open>i\<close> set means satellite \<open>i + 1\<close>.\<close>

definition spec_sats_in_use :: "string \<Rightarrow> int list" where
  "spec_sats_in_use bitmap = map (\<lambda>i. int i + 1) (filter (\<lambda>i. bitmap ! i = CHR ''1'') [0 ..< 32])"

section \<open>Properties of the built-ins and of the conversion functions\<close>

lemma bind_Inr [simp]: "bind (Inr v) f = f v"
  by (simp add: bind_def)

lemma bind_Inl [simp]: "bind (Inl e) f = Inl e"
  by (simp add: bind_def)

lemma is_digit16_iff: "is_digit 16 c \<longleftrightarrow> digit_val c \<noteq> None"
  by (auto simp: is_digit_def digit_val_def split: option.splits if_splits)

lemma hex_bin_dic_None: "\<not> is_digit 16 c \<Longrightarrow> hex_bin_dic c = None"
  unfolding is_digit16_iff digit_val_def hex_bin_dic_def map_of_eq_None_iff by simp

lemma is_digit16_set: "is_digit 16 c \<longleftrightarrow> c \<in> set ''0123456789abcdefABCDEF''"
  unfolding is_digit16_iff digit_val_def map_of_eq_None_iff by auto

lemma hex_bin_dic_table:
  "list_all (\<lambda>c. hex_bin_dic c = Some (nat_bits 4 (the (digit_val c)))) ''0123456789abcdefABCDEF''"
  by code_simp

lemma hex_bin_dic_Some: "is_digit 16 c \<Longrightarrow> hex_bin_dic c = Some (nat_bits 4 (the (digit_val c)))"
  using hex_bin_dic_table unfolding is_digit16_set list_all_iff by blast

lemma is_digit2_iff: "is_digit 2 c \<longleftrightarrow> c = CHR ''0'' \<or> c = CHR ''1''"
  by (auto simp: is_digit_def digit_val_def split: option.splits if_splits)

lemma hex_to_bin_loop_hex:
  "list_all (is_digit 16) h \<Longrightarrow> hex_to_bin_loop acc h = Inr (acc @ spec_hex_to_bits h)"
  by (induction h arbitrary: acc) (simp_all add: spec_hex_to_bits_def hex_bin_dic_Some)

lemma hex_to_bin_loop_bad:
  "\<not> list_all (is_digit 16) h \<Longrightarrow> hex_to_bin_loop acc h = Inl KeyError"
proof (induction h arbitrary: acc)
  case Nil then show ?case by simp
next
  case (Cons c h)
  show ?case
  proof (cases "is_digit 16 c")
    case True
    with Cons show ?thesis by (simp add: hex_bin_dic_Some)
  next
    case False
    then show ?thesis by (simp add: hex_bin_dic_None)
  qed
qed


lemma hex_digits_take: "hex_digits h \<Longrightarrow> hex_digits (take n h)"
  unfolding hex_digits_def list_all_iff by (meson in_set_takeD)

lemma hex_digits_drop: "hex_digits h \<Longrightarrow> hex_digits (drop n h)"
  unfolding hex_digits_def list_all_iff by (meson in_set_dropD)

lemma hex_digits_slice: "hex_digits h \<Longrightarrow> hex_digits (slice h a b)"
  by (simp add: slice_def hex_digits_take hex_digits_drop)

lemma length_slice: "length (slice h a b) = min (b - a) (length h - a)"
  by (simp add: slice_def)

lemma not_hex_x: "\<not> is_digit 16 CHR ''x''" "\<not> is_digit 16 CHR ''X''"
  by (simp_all add: is_digit_def digit_val_def)

lemma hex_digits_no_prefix:
  assumes "hex_digits h"
  shows "take 2 h \<noteq> ''0x''" "take 2 h \<noteq> ''0X''"
proof -
  have "\<And>p. take 2 h = p \<Longrightarrow> list_all (is_digit 16) p"
    using assms hex_digits_take [of h 2] by (auto simp: hex_digits_def)
  then show "take 2 h \<noteq> ''0x''" "take 2 h \<noteq> ''0X''"
    using not_hex_x by fastforce+
qed

lemma py_int_hex:
  assumes "hex_digits h" "h \<noteq> []"
  shows "py_int h 16 = Inr (int (digits_val 16 0 h))"
  using assms hex_digits_no_prefix [OF assms(1)]
  by (simp add: py_int_def base_prefixes_def hex_digits_def)

lemma hex_str_to_int_hex:
  "hex_digits h \<Longrightarrow> h \<noteq> [] \<Longrightarrow> hex_str_to_int h = Inr (int (digits_val 16 0 h))"
  by (simp add: hex_str_to_int_def py_int_hex)

lemma slice_nonempty: "a < b \<Longrightarrow> a < length h \<Longrightarrow> slice h a b \<noteq> []"
  by (simp add: slice_def)

lemma digits_val_append:
  "digits_val b acc (s @ t) = digits_val b (digits_val b acc s) t"
  by (induction s arbitrary: acc) simp_all

lemma digits_val_snoc:
  "digits_val b acc (s @ [c]) = digits_val b acc s * b + the (digit_val c)"
  by (simp add: digits_val_append)

lemma digits_val_acc:
  "digits_val b acc s = acc * b ^ length s + digits_val b 0 s"
proof (induction s rule: rev_induct)
  case Nil
  then show ?case by simp
next
  case (snoc c s)
  have "digits_val b acc (s @ [c]) = (acc * b ^ length s + digits_val b 0 s) * b + the (digit_val c)"
    unfolding digits_val_snoc using snoc by simp
  also have "\<dots> = acc * b ^ length (s @ [c]) + digits_val b 0 (s @ [c])"
    unfolding digits_val_snoc by (simp add: algebra_simps)
  finally show ?case .
qed

lemma digits_val_bound:
  "list_all (is_digit b) s \<Longrightarrow> digits_val b 0 s < b ^ length s"
proof (induction s rule: rev_induct)
  case Nil
  then show ?case by simp
next
  case (snoc c s)
  then have d: "the (digit_val c) < b" and IH: "digits_val b 0 s < b ^ length s"
    by (auto simp: is_digit_def split: option.splits)
  have "digits_val b 0 s * b + the (digit_val c) < (digits_val b 0 s + 1) * b"
    using d by simp
  also have "\<dots> \<le> b ^ length s * b"
    using IH by (intro mult_right_mono) simp_all
  finally show ?case by (simp add: digits_val_snoc mult.commute)
qed

lemma bind_eq_Inr: "bind m f = Inr r \<longleftrightarrow> (\<exists>v. m = Inr v \<and> f v = Inr r)"
  by (cases m) simp_all

lemma py_int2_bound:
  assumes "py_int s 2 = Inr v"
  shows "0 \<le> v \<and> v < 2 ^ length s"
proof -
  define ds where "ds = (if take 2 s \<in> set (base_prefixes 2) then drop 2 s else s)"
  from assms have ok: "list_all (is_digit 2) ds" and v: "v = int (digits_val 2 0 ds)"
    by (auto simp: py_int_def ds_def Let_def split: if_splits)
  have "length ds \<le> length s" by (simp add: ds_def)
  then have "(2::nat) ^ length ds \<le> 2 ^ length s" by simp
  with digits_val_bound [OF ok] have "digits_val 2 0 ds < 2 ^ length s" by linarith
  then show ?thesis
    unfolding v by (metis of_nat_0_le_iff of_nat_less_iff of_nat_numeral of_nat_power)
qed

lemma full_scale_range_of_cases:
  "0 \<le> c \<Longrightarrow> c < 4 \<Longrightarrow> full_scale_range_of c \<in> {8, 16, 32, 64}"
  by (simp add: full_scale_range_of_def)

subsection \<open>Bitstrings\<close>

lemma length_nat_bits [simp]: "length (nat_bits w n) = w"
  by (induction w arbitrary: n) simp_all

lemma nat_bits_binary: "list_all (is_digit 2) (nat_bits w n)"
  by (induction w arbitrary: n) (simp_all add: is_digit2_iff)

lemma spec_hex_to_bits_Nil [simp]: "spec_hex_to_bits [] = []"
  by (simp add: spec_hex_to_bits_def)

lemma spec_hex_to_bits_Cons:
  "spec_hex_to_bits (c # h) = nat_bits 4 (the (digit_val c)) @ spec_hex_to_bits h"
  by (simp add: spec_hex_to_bits_def)

lemma spec_hex_to_bits_append:
  "spec_hex_to_bits (g @ h) = spec_hex_to_bits g @ spec_hex_to_bits h"
  by (simp add: spec_hex_to_bits_def)

lemma length_spec_hex_to_bits [simp]: "length (spec_hex_to_bits h) = 4 * length h"
  by (induction h) (simp_all add: spec_hex_to_bits_Cons)

lemma spec_hex_to_bits_binary: "list_all (is_digit 2) (spec_hex_to_bits h)"
  by (induction h) (simp_all add: spec_hex_to_bits_Cons nat_bits_binary)

lemma spec_hex_to_bits_take: "spec_hex_to_bits (take n h) = take (4 * n) (spec_hex_to_bits h)"
proof -
  have "take (4 * n) (spec_hex_to_bits (take n h @ drop n h)) = spec_hex_to_bits (take n h)"
    unfolding spec_hex_to_bits_append by (simp add: min_def)
  then show ?thesis
    by simp
qed

lemma spec_hex_to_bits_drop: "spec_hex_to_bits (drop n h) = drop (4 * n) (spec_hex_to_bits h)"
proof -
  have "drop (4 * n) (spec_hex_to_bits (take n h @ drop n h)) = spec_hex_to_bits (drop n h)"
    unfolding spec_hex_to_bits_append by (simp add: min_def)
  then show ?thesis
    by simp
qed

lemma spec_hex_to_bits_slice:
  "spec_hex_to_bits (slice h a b) = slice (spec_hex_to_bits h) (4 * a) (4 * b)"
  by (simp add: slice_def spec_hex_to_bits_take spec_hex_to_bits_drop diff_mult_distrib2)

lemma digits_val_nat_bits: "digits_val 2 acc (nat_bits w n) = acc * 2 ^ w + n mod 2 ^ w"
proof (induction w arbitrary: n)
  case 0
  then show ?case by simp
next
  case (Suc w)
  have "digits_val 2 acc (nat_bits (Suc w) n) = (acc * 2 ^ w + (n div 2) mod 2 ^ w) * 2 + n mod 2"
    by (simp add: digits_val_snoc Suc digit_val_def odd_iff_mod_2_eq_one)
  also have "\<dots> = acc * 2 ^ Suc w + (2 * ((n div 2) mod 2 ^ w) + n mod 2)"
    by (simp add: algebra_simps)
  also have "2 * ((n div 2) mod 2 ^ w) + n mod 2 = n mod 2 ^ Suc w"
    by (simp add: mod_mult2_eq)
  finally show ?case .
qed

lemma digits_val_hex_bits:
  "list_all (is_digit 16) h \<Longrightarrow> digits_val 2 acc (spec_hex_to_bits h) = digits_val 16 acc h"
proof (induction h arbitrary: acc)
  case Nil
  then show ?case by simp
next
  case (Cons c h)
  then have "the (digit_val c) < 16"
    by (auto simp: is_digit_def split: option.splits)
  with Cons show ?case
    by (simp add: spec_hex_to_bits_Cons digits_val_append digits_val_nat_bits)
qed

lemma spec_unsigned_from_bits_snoc:
  "spec_unsigned_from_bits (s @ [c]) = 2 * spec_unsigned_from_bits s + (if c = CHR ''1'' then 1 else 0)"
  by (simp add: spec_unsigned_from_bits_def)

lemma digit_val_binary:
  assumes "is_digit 2 c"
  shows "the (digit_val c) = (if c = CHR ''1'' then 1 else 0)"
proof -
  from assms consider "c = CHR ''0''" | "c = CHR ''1''"
    unfolding is_digit2_iff by blast
  then show ?thesis
    by cases (simp_all add: digit_val_def)
qed

lemma spec_unsigned_digits:
  "list_all (is_digit 2) bits \<Longrightarrow> spec_unsigned_from_bits bits = int (digits_val 2 0 bits)"
proof (induction bits rule: rev_induct)
  case Nil
  then show ?case by (simp add: spec_unsigned_from_bits_def)
next
  case (snoc c s)
  then have c: "is_digit 2 c" and IH: "spec_unsigned_from_bits s = int (digits_val 2 0 s)"
    by simp_all
  show ?case
    unfolding spec_unsigned_from_bits_snoc digits_val_snoc IH digit_val_binary [OF c] by simp
qed

lemma not_bin_b: "\<not> is_digit 2 CHR ''b''" "\<not> is_digit 2 CHR ''B''"
  by (simp_all add: is_digit_def digit_val_def)

lemma binary_no_prefix:
  assumes "list_all (is_digit 2) bs"
  shows "take 2 bs \<noteq> ''0b''" "take 2 bs \<noteq> ''0B''"
proof -
  have "\<And>p. take 2 bs = p \<Longrightarrow> list_all (is_digit 2) p"
    using assms by (metis append_take_drop_id list_all_append)
  then show "take 2 bs \<noteq> ''0b''" "take 2 bs \<noteq> ''0B''"
    using not_bin_b by fastforce+
qed

lemma py_int_bits:
  assumes "list_all (is_digit 2) bs" "bs \<noteq> []"
  shows "py_int bs 2 = Inr (spec_unsigned_from_bits bs)"
  using assms binary_no_prefix [OF assms(1)]
  by (simp add: py_int_def base_prefixes_def spec_unsigned_digits)

lemma py_int_bits_empty [simp]: "py_int [] b = Inl LiteralValueError"
  by (simp add: py_int_def)

lemma hex_str_to_int_bits:
  assumes "hex_digits h" "h \<noteq> []"
  shows "hex_str_to_int h = Inr (spec_unsigned_from_bits (spec_hex_to_bits h))"
  using assms
  by (simp add: hex_str_to_int_hex spec_unsigned_digits spec_hex_to_bits_binary
      digits_val_hex_bits hex_digits_def)

lemma hex_to_bin_hex: "hex_digits h \<Longrightarrow> hex_to_bin h = Inr (spec_hex_to_bits h)"
  using hex_digits_no_prefix(1) [of h]
  by (simp add: hex_to_bin_def slice_def hex_to_bin_loop_hex hex_digits_def)

subsection \<open>The conversion functions on digit strings\<close>

lemma hex_to_bin_char:
  "hex_to_bin h =
     (let d = (if take 2 h = ''0x'' then drop 2 h else h)
      in if hex_digits d then Inr (spec_hex_to_bits d) else Inl KeyError)"
  using hex_to_bin_loop_hex [of "if take 2 h = ''0x'' then drop 2 h else h" "[]"]
    hex_to_bin_loop_bad [of "if take 2 h = ''0x'' then drop 2 h else h" "[]"]
  by (simp add: hex_to_bin_def slice_def hex_digits_def Let_def)

lemma hex_examples:
  "hex_digits ''1F''" "spec_hex_to_bits ''1F'' = ''00011111''"
  "spec_unsigned_from_bits ''00011111'' = 31" "\<not> hex_digits ''1G''"
  by code_simp+

lemma py_int_strip:
  assumes "take 2 h = ''0x''" "hex_digits (drop 2 h)"
  shows "py_int h 16 = py_int (drop 2 h) 16"
  using assms(1) hex_digits_no_prefix [OF assms(2)]
  by (simp add: py_int_def base_prefixes_def)

lemma hex_to_bin_round_trip:
  assumes "hex_to_bin h = Inr bits"
  shows "py_int bits 2 = hex_str_to_int h"
    and "bits \<noteq> [] \<Longrightarrow> hex_str_to_int h = Inr (spec_unsigned_from_bits bits)"
proof -
  define d where "d = (if take 2 h = ''0x'' then drop 2 h else h)"
  from assms have d: "hex_digits d" and bits: "bits = spec_hex_to_bits d"
    by (auto simp: hex_to_bin_char d_def Let_def split: if_splits)
  have strip: "hex_str_to_int h = hex_str_to_int d"
    using d by (auto simp: d_def hex_str_to_int_def py_int_strip)
  have len: "length bits = 4 * length d"
    by (simp add: bits)
  show "py_int bits 2 = hex_str_to_int h"
  proof (cases "d = []")
    case True
    show ?thesis
      unfolding strip bits True by (simp add: hex_str_to_int_def)
  next
    case False
    then have "bits \<noteq> []"
      using len by auto
    then show ?thesis
      using d False unfolding strip
      by (simp add: bits py_int_bits spec_hex_to_bits_binary hex_str_to_int_bits)
  qed
  show "hex_str_to_int h = Inr (spec_unsigned_from_bits bits)" if "bits \<noteq> []"
  proof -
    from that len have "d \<noteq> []"
      by auto
    with d show ?thesis
      unfolding strip by (simp add: bits hex_str_to_int_bits)
  qed
qed

lemma prefixed_examples:
  "hex_to_bin ''0x1F'' = Inr ''00011111''" "py_int ''00011111'' 2 = Inr 31"
  by code_simp+

subsection \<open>The fixed-width decoders on digit strings\<close>

lemma slice_take: "b \<le> n \<Longrightarrow> slice (take n raw) a b = slice raw a b"
  by (simp add: slice_def drop_take min_def)

lemma length_slice_full: "b \<le> length raw \<Longrightarrow> length (slice raw a b) = b - a"
  by (simp add: length_slice)

lemma hex_str_to_int_error: "hex_str_to_int h = Inl e \<Longrightarrow> e = LiteralValueError"
  by (simp add: hex_str_to_int_def py_int_def Let_def split: if_splits)

lemma hex_str_to_int_field:
  assumes "hex_digits raw" "a < b" "a < length raw"
  shows "hex_str_to_int (slice raw a b) = Inr (spec_unsigned_from_bits (spec_hex_to_bits (slice raw a b)))"
proof -
  have "slice raw a b \<noteq> []"
    using assms by (intro slice_nonempty) simp_all
  then show ?thesis
    using assms(1) by (intro hex_str_to_int_bits hex_digits_slice)
qed

lemma AltitudeData_convert_raw_field:
  assumes "hex_digits raw"
  shows "AltitudeData_convert_raw (slice raw a (a + 8)) =
    (if a + 8 \<le> length raw then Inr (spec_unsigned_from_bits (spec_hex_to_bits (slice raw a (a + 8))))
     else Inl LengthValueError)"
proof (cases "a + 8 \<le> length raw")
  case True
  then show ?thesis
    using hex_str_to_int_field [OF assms, of a "a + 8"]
    by (simp add: AltitudeData_convert_raw_def length_slice)
next
  case False
  then have "length (slice raw a (a + 8)) \<noteq> 8"
    unfolding length_slice by arith
  with False show ?thesis
    by (simp add: AltitudeData_convert_raw_def)
qed

lemma AltitudeData_convert_raw_cases:
  "AltitudeData_convert_raw h = Inl LengthValueError \<and> length h \<noteq> 8
   \<or> AltitudeData_convert_raw h = Inl LiteralValueError
   \<or> (\<exists>v. AltitudeData_convert_raw h = Inr v) \<and> length h = 8"
  by (simp add: AltitudeData_convert_raw_def hex_str_to_int_def py_int_def Let_def)

lemma AccelerationData_convert_raw_field:
  assumes "hex_digits raw" "0 < n"
  shows "AccelerationData_convert_raw (slice raw a (a + n)) n =
    (if a + n \<le> length raw then Inr (spec_unsigned_from_bits (spec_hex_to_bits (slice raw a (a + n))))
     else Inl LengthValueError)"
proof (cases "a + n \<le> length raw")
  case True
  then show ?thesis
    using hex_str_to_int_field [OF assms(1), of a "a + n"] assms(2)
    by (simp add: AccelerationData_convert_raw_def length_slice)
next
  case False
  then have "length (slice raw a (a + n)) \<noteq> n"
    unfolding length_slice using assms(2) by arith
  with False show ?thesis
    by (simp add: AccelerationData_convert_raw_def)
qed

lemma AccelerationData_convert_raw_cases:
  "AccelerationData_convert_raw h n = Inl LengthValueError \<and> length h \<noteq> n
   \<or> AccelerationData_convert_raw h n = Inl LiteralValueError
   \<or> (\<exists>v. AccelerationData_convert_raw h n = Inr v) \<and> length h = n"
  by (simp add: AccelerationData_convert_raw_def hex_str_to_int_def py_int_def Let_def)

lemma AltitudeData_create_from_raw_hex:
  assumes "hex_digits raw"
  shows "AltitudeData_create_from_raw raw =
    (if 32 \<le> length raw then
       Inr \<lparr>AltitudeData.time = spec_unsigned_from_bits (spec_hex_to_bits (slice raw 0 8)),
            AltitudeData.pressure =
              real_of_int (spec_unsigned_from_bits (spec_hex_to_bits (slice raw 8 16))) / 1000,
            AltitudeData.temperature =
              real_of_int (spec_unsigned_from_bits (spec_hex_to_bits (slice raw 16 24))) / 1000,
            AltitudeData.altitude =
              real_of_int (spec_unsigned_from_bits (spec_hex_to_bits (slice raw 24 32))) / 1000\<rparr>
     else Inl LengthValueError)"
  using AltitudeData_convert_raw_field [OF assms, of 0] AltitudeData_convert_raw_field [OF assms, of 8]
    AltitudeData_convert_raw_field [OF assms, of 16] AltitudeData_convert_raw_field [OF assms, of 24]
  by (simp add: AltitudeData_create_from_raw_def)

lemma AltitudeData_create_from_raw_short:
  assumes "length raw < 32"
  shows "AltitudeData_create_from_raw raw \<in> {Inl LengthValueError, Inl LiteralValueError}"
proof -
  have last: "length (slice raw 24 32) \<noteq> 8"
    using assms by (simp add: length_slice)
  show ?thesis
    using AltitudeData_convert_raw_cases [of "slice raw 0 8"]
      AltitudeData_convert_raw_cases [of "slice raw 8 16"]
      AltitudeData_convert_raw_cases [of "slice raw 16 24"]
      AltitudeData_convert_raw_cases [of "slice raw 24 32"] last
    unfolding AltitudeData_create_from_raw_def
    by (elim disjE conjE exE) simp_all
qed

lemma AltitudeData_create_from_raw_take:
  "AltitudeData_create_from_raw (take 32 raw) = AltitudeData_create_from_raw raw"
  by (simp add: AltitudeData_create_from_raw_def slice_take)


subsection \<open>Floats that stay finite\<close>

lemma float_result_small:
  assumes "0 \<le> x" "x < 2 ^ m" "m \<le> 1024"
  shows "float_result x = Finite x"
proof -
  have "(2::real) ^ m \<le> 2 ^ 1024"
    using assms(3) by (intro power_increasing) simp_all
  with assms(1,2) have "\<bar>x\<bar> < 2 ^ 1024"
    by linarith
  then show ?thesis
    unfolding float_result_def by (rule if_P)
qed

lemma spec_unsigned_from_bits_bound:
  assumes "list_all (is_digit 2) bits"
  shows "0 \<le> spec_unsigned_from_bits bits" "spec_unsigned_from_bits bits < 2 ^ length bits"
proof -
  show "0 \<le> spec_unsigned_from_bits bits"
    unfolding spec_unsigned_digits [OF assms] by simp
  have "int (digits_val 2 0 bits) < int (2 ^ length bits)"
    using digits_val_bound [OF assms] by (simp only: of_nat_less_iff)
  then show "spec_unsigned_from_bits bits < 2 ^ length bits"
    unfolding spec_unsigned_digits [OF assms] by simp
qed

lemma field_value_bound:
  assumes "b - a \<le> n"
  shows "0 \<le> spec_unsigned_from_bits (spec_hex_to_bits (slice raw a b))"
    "spec_unsigned_from_bits (spec_hex_to_bits (slice raw a b)) < 2 ^ (4 * n)"
proof -
  let ?bits = "spec_hex_to_bits (slice raw a b)"
  show "0 \<le> spec_unsigned_from_bits ?bits"
    by (rule spec_unsigned_from_bits_bound(1) [OF spec_hex_to_bits_binary])
  have "length ?bits \<le> 4 * n"
    using assms by (simp add: length_slice)
  then have "(2::int) ^ length ?bits \<le> 2 ^ (4 * n)"
    by (intro power_increasing) simp_all
  with spec_unsigned_from_bits_bound(2) [OF spec_hex_to_bits_binary, of "slice raw a b"]
  show "spec_unsigned_from_bits ?bits < 2 ^ (4 * n)"
    by linarith
qed

lemma mult_less_pow2:
  fixes x y :: real
  assumes "0 \<le> x" "x < 2 ^ p" "0 \<le> y" "y < 2 ^ q"
  shows "0 \<le> x * y" "x * y < 2 ^ (p + q)"
proof -
  show "0 \<le> x * y"
    using assms(1,3) by simp
  have "x * y < 2 ^ p * 2 ^ q"
    using assms by (intro mult_strict_mono') simp_all
  then show "x * y < 2 ^ (p + q)"
    by (simp add: power_add)
qed

lemma floordiv_pow2_nonneg:
  "0 \<le> k \<Longrightarrow> floordiv_pow2 n k = Inr (Finite (real_of_int (drop_bit (nat k) n)))"
  by (simp add: floordiv_pow2_def drop_bit_eq_div)

lemma floordiv_pow2_neg:
  assumes "k < 0" "- 1000 \<le> k" "0 \<le> n" "n < 2 ^ 16"
  shows "floordiv_pow2 n k = Inr (Finite (real_of_int n * 2 ^ nat (- k)))"
proof -
  have n: "0 \<le> real_of_int n" "real_of_int n < 2 ^ 16"
    using assms(3,4) by simp_all
  have p: "(0::real) \<le> 2 ^ nat (- k)" "(2::real) ^ nat (- k) < 2 ^ (nat (- k) + 1)"
    by simp_all
  have m: "16 + (nat (- k) + 1) \<le> 1024"
    using assms(2) by arith
  have "float_result (real_of_int n * 2 ^ nat (- k)) = Finite (real_of_int n * 2 ^ nat (- k))"
    by (rule float_result_small [OF mult_less_pow2 [OF n p] m])
  then show ?thesis
    using assms(1,2) by (simp add: floordiv_pow2_def)
qed



lemma spec_shift_bound:
  assumes "- 985 \<le> k" "0 \<le> u" "u < 2 ^ 16"
  shows "0 \<le> spec_shift u k" "spec_shift u k < 2 ^ 1002"
proof -
  have u: "0 \<le> real_of_int u" "real_of_int u < 2 ^ 16"
    using assms(2,3) by simp_all
  show "0 \<le> spec_shift u k"
    using assms(2) by (simp add: spec_shift_def drop_bit_eq_div pos_imp_zdiv_nonneg_iff)
  show "spec_shift u k < 2 ^ 1002"
  proof (cases "0 \<le> k")
    case True
    have "u div 2 ^ nat k \<le> u div 1"
      using assms(2) by (intro zdiv_mono2) simp_all
    then have "u div 2 ^ nat k \<le> u"
      by simp
    then have "real_of_int (u div 2 ^ nat k) < 2 ^ 16"
      using u(2) by linarith
    also have "(2::real) ^ 16 \<le> 2 ^ 1002"
      by (intro power_increasing) simp_all
    finally show ?thesis
      using True by (simp only: spec_shift_def drop_bit_eq_div if_True)
  next
    case False
    have p: "(0::real) \<le> 2 ^ nat (- k)" "(2::real) ^ nat (- k) < 2 ^ (nat (- k) + 1)"
      by simp_all
    have "16 + (nat (- k) + 1) \<le> 1002"
      using assms(1) by arith
    then have "(2::real) ^ (16 + (nat (- k) + 1)) \<le> 2 ^ 1002"
      by (intro power_increasing) simp_all
    with mult_less_pow2(2) [OF u p] have "real_of_int u * 2 ^ nat (- k) < 2 ^ 1002"
      by linarith
    then show ?thesis
      using False by (simp only: spec_shift_def if_False)
  qed
qed

lemma floordiv_pow2_spec_shift:
  assumes "- 985 \<le> k" "0 \<le> n" "n < 2 ^ 16"
  shows "floordiv_pow2 n k = Inr (Finite (spec_shift n k))"
proof (cases "0 \<le> k")
  case True
  then show ?thesis
    by (simp add: floordiv_pow2_nonneg spec_shift_def)
next
  case False
  then have "floordiv_pow2 n k = Inr (Finite (real_of_int n * 2 ^ nat (- k)))"
    using assms by (intro floordiv_pow2_neg) simp_all
  then show ?thesis
    using False by (simp add: spec_shift_def)
qed

lemma acc_axis_finite:
  assumes "0 \<le> f" "f < 2 ^ 1002" "0 \<le> v" "v < 2 ^ 16"
  shows "num_div (num_mul (Finite (real_of_int v)) (Finite f)) (2 ^ 15)
    = Finite (real_of_int v * f / 2 ^ 15)"
proof -
  have v: "0 \<le> real_of_int v" "real_of_int v < 2 ^ 16"
    using assms(3,4) by simp_all
  note vf = mult_less_pow2 [OF v assms(1,2)]
  have mul: "float_result (real_of_int v * f) = Finite (real_of_int v * f)"
    by (rule float_result_small [OF vf]) simp
  have "real_of_int v * f / 2 ^ 15 \<le> real_of_int v * f"
    using vf(1) by (simp add: field_simps)
  with vf have "0 \<le> real_of_int v * f / 2 ^ 15" "real_of_int v * f / 2 ^ 15 < 2 ^ (16 + 1002)"
    by simp_all
  then have "float_result (real_of_int v * f / 2 ^ 15) = Finite (real_of_int v * f / 2 ^ 15)"
    by (rule float_result_small) simp
  with mul show ?thesis
    by (simp add: num_div_def num_mul_def)
qed

lemma ang_axis_finite:
  assumes "0 \<le> f" "f < 2 ^ 1002" "0 \<le> v" "v < 2 ^ 16"
  shows "num_mul (Finite (real_of_int v)) (num_div (Finite f) (2 ^ 15))
    = Finite (real_of_int v * (f / 2 ^ 15))"
proof -
  have v: "0 \<le> real_of_int v" "real_of_int v < 2 ^ 16"
    using assms(3,4) by simp_all
  have "f / 2 ^ 15 \<le> f"
    using assms(1) by (simp add: field_simps)
  with assms(1,2) have q: "0 \<le> f / 2 ^ 15" "f / 2 ^ 15 < 2 ^ 1002"
    by simp_all
  have div: "float_result (f / 2 ^ 15) = Finite (f / 2 ^ 15)"
    by (rule float_result_small [OF q]) simp
  have "float_result (real_of_int v * (f / 2 ^ 15)) = Finite (real_of_int v * (f / 2 ^ 15))"
    by (rule float_result_small [OF mult_less_pow2 [OF v q]]) simp
  with div show ?thesis
    by (simp add: num_div_def num_mul_def)
qed

subsection \<open>AccelerationData and AngularVelocityData on digit strings\<close>

lemma field16_bound:
  assumes "b \<le> a + 4"
  shows "0 \<le> spec_unsigned_from_bits (spec_hex_to_bits (slice raw a b))"
    "spec_unsigned_from_bits (spec_hex_to_bits (slice raw a b)) < 2 ^ 16"
proof -
  have "b - a \<le> 4"
    using assms by simp
  from field_value_bound [OF this, of raw]
  show "0 \<le> spec_unsigned_from_bits (spec_hex_to_bits (slice raw a b))"
    "spec_unsigned_from_bits (spec_hex_to_bits (slice raw a b)) < 2 ^ 16"
    by simp_all
qed

lemma AccelerationData_create_from_raw_hex:
  assumes "hex_digits raw" "res \<le> 1000"
  shows "AccelerationData_create_from_raw raw res =
    (if 24 \<le> length raw then
       let f = spec_shift (spec_unsigned_from_bits (spec_hex_to_bits (slice raw 8 12))) (16 - res + 1)
       in Inr \<lparr>AccelerationData.resolution = res,
            AccelerationData.time = spec_unsigned_from_bits (spec_hex_to_bits (slice raw 0 8)),
            AccelerationData.fsr = Finite f,
            AccelerationData.x_axis = Finite
              (real_of_int (spec_unsigned_from_bits (spec_hex_to_bits (slice raw 12 16))) * f / 2 ^ 15),
            AccelerationData.y_axis = Finite
              (real_of_int (spec_unsigned_from_bits (spec_hex_to_bits (slice raw 16 20))) * f / 2 ^ 15),
            AccelerationData.z_axis = Finite
              (real_of_int (spec_unsigned_from_bits (spec_hex_to_bits (slice raw 20 24))) * f / 2 ^ 15)\<rparr>
     else Inl LengthValueError)"
proof -
  let ?u = "spec_unsigned_from_bits (spec_hex_to_bits (slice raw 8 12))"
  let ?k = "16 - res + 1"
  have k: "- 985 \<le> ?k"
    using assms(2) by simp
  have u: "0 \<le> ?u" "?u < 2 ^ 16"
    by (rule field16_bound, simp)+
  have fsr: "floordiv_pow2 ?u ?k = Inr (Finite (spec_shift ?u ?k))"
    by (rule floordiv_pow2_spec_shift [OF k u])
  note f = spec_shift_bound [OF k u]
  have axis: "num_div (num_mul (Finite (real_of_int (spec_unsigned_from_bits
        (spec_hex_to_bits (slice raw a (a + 4)))))) (Finite (spec_shift ?u ?k))) (2 ^ 15)
      = Finite (real_of_int (spec_unsigned_from_bits (spec_hex_to_bits (slice raw a (a + 4))))
          * spec_shift ?u ?k / 2 ^ 15)" for a
    by (rule acc_axis_finite [OF f field16_bound [of "a + 4" a raw]]) simp_all
  show ?thesis
    using AccelerationData_convert_raw_field [OF assms(1), of 8 0]
      AccelerationData_convert_raw_field [OF assms(1), of 4 8]
      AccelerationData_convert_raw_field [OF assms(1), of 4 12]
      AccelerationData_convert_raw_field [OF assms(1), of 4 16]
      AccelerationData_convert_raw_field [OF assms(1), of 4 20]
      fsr axis [of 12] axis [of 16] axis [of 20]
    by (simp add: AccelerationData_create_from_raw_def AccelerationData_set_fsr_def
        AccelerationData_set_axis_def Let_def)
qed


lemma floordiv_pow2_cases:
  "- 1074 \<le> k \<Longrightarrow> \<exists>f. floordiv_pow2 n k = Inr f"
  by (simp add: floordiv_pow2_def)

lemma AccelerationData_set_fsr_cases:
  assumes "res \<le> 1000"
  shows "AccelerationData_set_fsr res h = Inl LengthValueError
    \<or> AccelerationData_set_fsr res h = Inl LiteralValueError
    \<or> (\<exists>f. AccelerationData_set_fsr res h = Inr f)"
proof -
  have "- 1074 \<le> 16 - res + 1"
    using assms by simp
  from floordiv_pow2_cases [OF this] show ?thesis
    using AccelerationData_convert_raw_cases [of h 4]
    unfolding AccelerationData_set_fsr_def Let_def
    by (elim disjE conjE exE) simp_all
qed

lemma AccelerationData_set_axis_cases:
  "AccelerationData_set_axis f h = Inl LengthValueError \<and> length h \<noteq> 4
   \<or> AccelerationData_set_axis f h = Inl LiteralValueError
   \<or> (\<exists>v. AccelerationData_set_axis f h = Inr v) \<and> length h = 4"
  using AccelerationData_convert_raw_cases [of h 4]
  unfolding AccelerationData_set_axis_def
  by (elim disjE conjE exE) simp_all

lemma AccelerationData_create_from_raw_no_record:
  assumes "length raw < 24"
  shows "AccelerationData_create_from_raw raw res \<noteq> Inr r"
proof
  assume "AccelerationData_create_from_raw raw res = Inr r"
  then obtain f z where "AccelerationData_set_axis f (slice raw 20 24) = Inr z"
    unfolding AccelerationData_create_from_raw_def bind_eq_Inr by blast
  moreover have "length (slice raw 20 24) \<noteq> 4"
    using assms by (simp add: length_slice)
  ultimately show False
    using AccelerationData_set_axis_cases [of f "slice raw 20 24"] by simp
qed

lemma AccelerationData_create_from_raw_short:
  assumes "length raw < 24" "res \<le> 1000"
  shows "AccelerationData_create_from_raw raw res \<in> {Inl LengthValueError, Inl LiteralValueError}"
proof -
  have e: "m = Inl LengthValueError \<or> m = Inl LiteralValueError \<or> (\<exists>v. m = Inr v \<and> g v \<in> S)
      \<Longrightarrow> {Inl LengthValueError, Inl LiteralValueError} \<subseteq> S \<Longrightarrow> bind m g \<in> S"
    for m :: "py_error + 'c" and g :: "'c \<Rightarrow> py_error + 'd" and S
    by auto
  let ?S = "{Inl LengthValueError, Inl LiteralValueError} :: (py_error + AccelerationData) set"
  have last: "length (slice raw 20 24) \<noteq> 4"
    using assms(1) by (simp add: length_slice)
  have z: "bind (AccelerationData_set_axis f (slice raw 20 24)) g \<in> ?S"
    for f and g :: "number \<Rightarrow> py_error + AccelerationData"
    using AccelerationData_set_axis_cases [of f "slice raw 20 24"] last by auto
  have y: "bind (AccelerationData_set_axis f (slice raw 16 20))
      (\<lambda>y. bind (AccelerationData_set_axis f (slice raw 20 24)) (g y)) \<in> ?S"
    for f and g :: "number \<Rightarrow> number \<Rightarrow> py_error + AccelerationData"
    using AccelerationData_set_axis_cases [of f "slice raw 16 20"] z by (intro e) auto
  have x: "bind (AccelerationData_set_axis f (slice raw 12 16))
      (\<lambda>x. bind (AccelerationData_set_axis f (slice raw 16 20))
        (\<lambda>y. bind (AccelerationData_set_axis f (slice raw 20 24)) (g x y))) \<in> ?S"
    for f and g :: "number \<Rightarrow> number \<Rightarrow> number \<Rightarrow> py_error + AccelerationData"
    using AccelerationData_set_axis_cases [of f "slice raw 12 16"] y by (intro e) auto
  have f: "bind (AccelerationData_set_fsr res (slice raw 8 12))
      (\<lambda>f. bind (AccelerationData_set_axis f (slice raw 12 16))
        (\<lambda>x. bind (AccelerationData_set_axis f (slice raw 16 20))
          (\<lambda>y. bind (AccelerationData_set_axis f (slice raw 20 24)) (g f x y)))) \<in> ?S"
    for g :: "number \<Rightarrow> number \<Rightarrow> number \<Rightarrow> number \<Rightarrow> py_error + AccelerationData"
    using AccelerationData_set_fsr_cases [OF assms(2), of "slice raw 8 12"] x by (intro e) auto
  show ?thesis
    unfolding AccelerationData_create_from_raw_def
    using AccelerationData_convert_raw_cases [of "slice raw 0 8" 8] f by (intro e) auto
qed

lemma AccelerationData_create_from_raw_take:
  "AccelerationData_create_from_raw (take 24 raw) res = AccelerationData_create_from_raw raw res"
  by (simp add: AccelerationData_create_from_raw_def slice_take)


lemma AngularVelocityData_init_hex:
  assumes "hex_digits raw" "20 < length raw" "res \<le> 1000"
  shows "AngularVelocityData_init raw res =
    (let f = spec_shift (spec_unsigned_from_bits (spec_hex_to_bits (slice raw 8 12))) (16 - (res + 1))
     in Inr \<lparr>AngularVelocityData.time_stamp = spec_unsigned_from_bits (spec_hex_to_bits (slice raw 0 8)),
          AngularVelocityData.fsr = Finite f,
          AngularVelocityData.x_velocity = Finite
            (real_of_int (spec_unsigned_from_bits (spec_hex_to_bits (slice raw 12 16))) * (f / 2 ^ 15)),
          AngularVelocityData.y_velocity = Finite
            (real_of_int (spec_unsigned_from_bits (spec_hex_to_bits (slice raw 16 20))) * (f / 2 ^ 15)),
          AngularVelocityData.z_velocity = Finite
            (real_of_int (spec_unsigned_from_bits (spec_hex_to_bits (slice raw 20 24))) * (f / 2 ^ 15))\<rparr>)"
proof -
  let ?u = "spec_unsigned_from_bits (spec_hex_to_bits (slice raw 8 12))"
  let ?k = "16 - (res + 1)"
  have k: "- 985 \<le> ?k"
    using assms(3) by simp
  have u: "0 \<le> ?u" "?u < 2 ^ 16"
    by (rule field16_bound, simp)+
  have fsr: "floordiv_pow2 ?u ?k = Inr (Finite (spec_shift ?u ?k))"
    by (rule floordiv_pow2_spec_shift [OF k u])
  note f = spec_shift_bound [OF k u]
  have axis: "num_mul (Finite (real_of_int (spec_unsigned_from_bits
        (spec_hex_to_bits (slice raw a (a + 4)))))) (num_div (Finite (spec_shift ?u ?k)) (2 ^ 15))
      = Finite (real_of_int (spec_unsigned_from_bits (spec_hex_to_bits (slice raw a (a + 4))))
          * (spec_shift ?u ?k / 2 ^ 15))" for a
    by (rule ang_axis_finite [OF f field16_bound [of "a + 4" a raw]]) simp_all
  have field: "hex_str_to_int (slice raw a b) =
      Inr (spec_unsigned_from_bits (spec_hex_to_bits (slice raw a b)))" if "a < b" "a \<le> 20" for a b
    using that assms(2) by (intro hex_str_to_int_field [OF assms(1)]) simp_all
  show ?thesis
    using fsr axis [of 12] axis [of 16] axis [of 20]
    by (simp add: AngularVelocityData_init_def AngularVelocityData_set_fsr_def
        AngularVelocityData_set_velocity_def Let_def field)
qed

lemma hex_str_to_int_cases:
  "hex_str_to_int h = Inl LiteralValueError \<or> (\<exists>v. hex_str_to_int h = Inr v) \<and> h \<noteq> []"
  by (auto simp: hex_str_to_int_def py_int_def Let_def)

lemma AngularVelocityData_set_velocity_cases:
  "AngularVelocityData_set_velocity f h = Inl LiteralValueError
   \<or> (\<exists>v. AngularVelocityData_set_velocity f h = Inr v) \<and> h \<noteq> []"
  using hex_str_to_int_cases [of h]
  unfolding AngularVelocityData_set_velocity_def
  by (elim disjE conjE exE) simp_all

lemma AngularVelocityData_set_fsr_cases:
  assumes "res \<le> 1000"
  shows "AngularVelocityData_set_fsr raw res = Inl LiteralValueError
    \<or> (\<exists>f. AngularVelocityData_set_fsr raw res = Inr f)"
proof -
  have "- 1074 \<le> 16 - (res + 1)"
    using assms by simp
  from floordiv_pow2_cases [OF this] show ?thesis
    using hex_str_to_int_cases [of "slice raw 8 12"]
    unfolding AngularVelocityData_set_fsr_def Let_def
    by (elim disjE conjE exE) simp_all
qed

lemma AngularVelocityData_init_no_record:
  assumes "length raw \<le> 20"
  shows "AngularVelocityData_init raw res \<noteq> Inr r"
proof
  assume "AngularVelocityData_init raw res = Inr r"
  then obtain f z where "AngularVelocityData_set_velocity f (slice raw 20 24) = Inr z"
    unfolding AngularVelocityData_init_def bind_eq_Inr by blast
  moreover have "slice raw 20 24 = []"
    using assms by (simp add: slice_def)
  ultimately show False
    using AngularVelocityData_set_velocity_cases [of f "slice raw 20 24"] by simp
qed

lemma AngularVelocityData_init_short:
  assumes "length raw \<le> 20" "res \<le> 1000"
  shows "AngularVelocityData_init raw res = Inl LiteralValueError"
proof -
  have e: "m = Inl LiteralValueError \<or> (\<exists>v. m = Inr v \<and> g v = Inl LiteralValueError)
      \<Longrightarrow> bind m g = Inl LiteralValueError"
    for m :: "py_error + 'c" and g :: "'c \<Rightarrow> py_error + 'd"
    by auto
  have last: "slice raw 20 24 = []"
    using assms(1) by (simp add: slice_def)
  have z: "bind (AngularVelocityData_set_velocity f (slice raw 20 24)) g = Inl LiteralValueError"
    for f and g :: "number \<Rightarrow> py_error + AngularVelocityData"
    using AngularVelocityData_set_velocity_cases [of f "slice raw 20 24"] last by auto
  have y: "bind (AngularVelocityData_set_velocity f (slice raw 16 20))
      (\<lambda>y. bind (AngularVelocityData_set_velocity f (slice raw 20 24)) (g y)) = Inl LiteralValueError"
    for f and g :: "number \<Rightarrow> number \<Rightarrow> py_error + AngularVelocityData"
    using AngularVelocityData_set_velocity_cases [of f "slice raw 16 20"] z by (intro e) auto
  have x: "bind (AngularVelocityData_set_velocity f (slice raw 12 16))
      (\<lambda>x. bind (AngularVelocityData_set_velocity f (slice raw 16 20))
        (\<lambda>y. bind (AngularVelocityData_set_velocity f (slice raw 20 24)) (g x y)))
      = Inl LiteralValueError"
    for f and g :: "number \<Rightarrow> number \<Rightarrow> number \<Rightarrow> py_error + AngularVelocityData"
    using AngularVelocityData_set_velocity_cases [of f "slice raw 12 16"] y by (intro e) auto
  have f: "bind (AngularVelocityData_set_fsr raw res)
      (\<lambda>f. bind (AngularVelocityData_set_velocity f (slice raw 12 16))
        (\<lambda>x. bind (AngularVelocityData_set_velocity f (slice raw 16 20))
          (\<lambda>y. bind (AngularVelocityData_set_velocity f (slice raw 20 24)) (g f x y))))
      = Inl LiteralValueError"
    for g :: "number \<Rightarrow> number \<Rightarrow> number \<Rightarrow> number \<Rightarrow> py_error + AngularVelocityData"
    using AngularVelocityData_set_fsr_cases [OF assms(2), of raw] x by (intro e) auto
  show ?thesis
    unfolding AngularVelocityData_init_def
    using hex_str_to_int_cases [of "slice raw 0 8"] f by (intro e) auto
qed

lemma AngularVelocityData_init_take:
  "AngularVelocityData_init (take 24 raw) res = AngularVelocityData_init raw res"
  by (simp add: AngularVelocityData_init_def AngularVelocityData_set_fsr_def slice_take)

subsection \<open>The signed conversion and GNSSLocationData on digit strings\<close>

lemma index_nth [simp]: "i < length s \<Longrightarrow> index s i = Inr (s ! i)"
  by (simp add: index_def)

lemma take1_eq_iff: "s \<noteq> [] \<Longrightarrow> take 1 s = [c] \<longleftrightarrow> s ! 0 = c"
  by (cases s) simp_all

lemma list_all_drop: "list_all P s \<Longrightarrow> list_all P (drop n s)"
  unfolding list_all_iff by (meson in_set_dropD)

lemma list_all_take: "list_all P s \<Longrightarrow> list_all P (take n s)"
  unfolding list_all_iff by (meson in_set_takeD)

lemma list_all_slice: "list_all P s \<Longrightarrow> list_all P (slice s a b)"
  by (simp add: slice_def list_all_take list_all_drop)

lemma signed_hex_str_to_int_hex:
  assumes "hex_digits h" "h \<noteq> []"
  shows "signed_hex_str_to_int h = Inr (spec_signed_from_bits (spec_hex_to_bits h))"
proof -
  let ?B = "spec_hex_to_bits h"
  obtain c t where "h = c # t"
    using assms(2) by (cases h) auto
  then have "length ?B = 4 + 4 * length t"
    by simp
  then have i: "0 < length ?B" and j: "0 < length (drop 1 ?B)"
    by simp_all
  note ne = length_greater_0_conv [THEN iffD1, OF i]
  note d = length_greater_0_conv [THEN iffD1, OF j]
  have rest: "py_int (drop 1 ?B) 2 = Inr (spec_unsigned_from_bits (drop 1 ?B))"
    using d by (intro py_int_bits list_all_drop spec_hex_to_bits_binary)
  show ?thesis
    using take1_eq_iff [OF ne, of "CHR ''1''"] i
    by (simp add: signed_hex_str_to_int_def hex_to_bin_hex [OF assms(1)]
        rest [unfolded One_nat_def] spec_signed_from_bits_def)
qed



lemma spec_signed_twos_complement:
  assumes "list_all (is_digit 2) bits" "bits \<noteq> []"
  shows "spec_signed_from_bits bits = twos_complement (length bits) (spec_unsigned_from_bits bits)"
proof -
  obtain c rest where bits: "bits = c # rest"
    using assms(2) by (cases bits) auto
  with assms(1) have c: "is_digit 2 c" and rest: "list_all (is_digit 2) rest"
    by simp_all
  have "digits_val 2 0 (c # rest) = digits_val 2 (the (digit_val c)) rest"
    by simp
  also have "\<dots> = the (digit_val c) * 2 ^ length rest + digits_val 2 0 rest"
    by (rule digits_val_acc)
  finally have dv: "int (digits_val 2 0 (c # rest)) =
      int (the (digit_val c)) * 2 ^ length rest + int (digits_val 2 0 rest)"
    by simp
  have all: "list_all (is_digit 2) (c # rest)"
    using assms(1) by (simp only: bits)
  have "spec_unsigned_from_bits (c # rest) = int (digits_val 2 0 (c # rest))"
    by (rule spec_unsigned_digits [OF all])
  also note dv
  also have "int (the (digit_val c)) * 2 ^ length rest + int (digits_val 2 0 rest) =
      (if c = CHR ''1'' then 1 else 0) * 2 ^ length rest + spec_unsigned_from_bits rest"
    unfolding spec_unsigned_digits [OF rest] digit_val_binary [OF c] by simp
  finally have u: "spec_unsigned_from_bits (c # rest) =
      (if c = CHR ''1'' then 1 else 0) * 2 ^ length rest + spec_unsigned_from_bits rest" .
  note r = spec_unsigned_from_bits_bound [OF rest]
  show ?thesis
  proof (cases "c = CHR ''1''")
    case True
    show ?thesis
      unfolding bits spec_signed_from_bits_def twos_complement_def u using r True by simp
  next
    case False
    show ?thesis
      unfolding bits spec_signed_from_bits_def twos_complement_def u using r False by simp
  qed
qed

subsection \<open>The signed conversion of a bitstring\<close>

lemma digit_char_table:
  "list_all (\<lambda>d. digit_val (digit_char d) = Some d) [0 ..< 16]"
  by code_simp

lemma digit_val_digit_char: "d < 16 \<Longrightarrow> digit_val (digit_char d) = Some d"
  using digit_char_table unfolding list_all_iff by simp

lemma is_digit_digit_char: "d < 16 \<Longrightarrow> is_digit 16 (digit_char d)"
  by (simp add: is_digit_def digit_val_digit_char)

lemma nat_digits16:
  "list_all (is_digit 16) (nat_digits 16 n) \<and> nat_digits 16 n \<noteq> []
   \<and> digits_val 16 0 (nat_digits 16 n) = n"
proof (induction n rule: less_induct)
  case (less n)
  show ?case
  proof (cases "n < 16")
    case True
    then show ?thesis
      by (simp add: nat_digits.simps [of 16 n] is_digit_digit_char digit_val_digit_char)
  next
    case False
    then have "n div 16 < n"
      by simp
    from less [OF this] have IH: "list_all (is_digit 16) (nat_digits 16 (n div 16))"
      "digits_val 16 0 (nat_digits 16 (n div 16)) = n div 16"
      by simp_all
    have unfold: "nat_digits 16 n = nat_digits 16 (n div 16) @ [digit_char (n mod 16)]"
      using False by (simp add: nat_digits.simps [of 16 n])
    show ?thesis
      unfolding unfold digits_val_snoc IH(2)
      by (simp add: IH(1) is_digit_digit_char digit_val_digit_char)
  qed
qed

lemma length_nat_digits16:
  "n < 16 \<Longrightarrow> length (nat_digits 16 n) = 1"
  "16 \<le> n \<Longrightarrow> n < 256 \<Longrightarrow> length (nat_digits 16 n) = 2"
proof -
  show "length (nat_digits 16 n) = 1" if "n < 16"
    using that by (simp add: nat_digits.simps [of 16 n])
  show "length (nat_digits 16 n) = 2" if "16 \<le> n" "n < 256"
  proof -
    have "n div 16 < 16"
      using that(2) by simp
    then show ?thesis
      using that(1) by (simp add: nat_digits.simps [of 16 n] nat_digits.simps [of 16 "n div 16"])
  qed
qed

lemma signed_hex_str_to_int_prefixed:
  assumes "hex_digits h" "h \<noteq> []"
  shows "signed_hex_str_to_int (''0x'' @ h) =
    Inr (twos_complement (4 * length h) (int (digits_val 16 0 h)))"
proof -
  let ?B = "spec_hex_to_bits h"
  have bin: "hex_to_bin (''0x'' @ h) = Inr ?B"
    using assms(1) by (simp add: hex_to_bin_char)
  have "signed_hex_str_to_int (''0x'' @ h) = signed_hex_str_to_int h"
    unfolding signed_hex_str_to_int_def bin hex_to_bin_hex [OF assms(1)] ..
  also have "\<dots> = Inr (spec_signed_from_bits ?B)"
    using assms by (rule signed_hex_str_to_int_hex)
  also have "spec_signed_from_bits ?B = twos_complement (length ?B) (spec_unsigned_from_bits ?B)"
  proof (rule spec_signed_twos_complement [OF spec_hex_to_bits_binary])
    obtain c t where "h = c # t"
      using assms(2) by (cases h) auto
    then have "0 < length ?B"
      by simp
    then show "?B \<noteq> []"
      by (rule length_greater_0_conv [THEN iffD1])
  qed
  also have "spec_unsigned_from_bits ?B = int (digits_val 16 0 h)"
    using assms(1)
    by (simp add: spec_unsigned_digits spec_hex_to_bits_binary digits_val_hex_bits hex_digits_def)
  finally show ?thesis
    by simp
qed

lemma signed_bin_str_to_int_bits:
  assumes "list_all (is_digit 2) s" "s \<noteq> []"
  shows "signed_bin_str_to_int s =
    Inr (twos_complement (4 * length (nat_digits 16 (nat (spec_unsigned_from_bits s))))
      (spec_unsigned_from_bits s))"
proof -
  let ?n = "spec_unsigned_from_bits s"
  have n: "0 \<le> ?n"
    by (rule spec_unsigned_from_bits_bound(1) [OF assms(1)])
  have hex: "py_hex ?n = ''0x'' @ nat_digits 16 (nat ?n)"
    using n by (simp add: py_hex_def)
  note d = nat_digits16 [of "nat ?n"]
  have "signed_hex_str_to_int (py_hex ?n) =
      Inr (twos_complement (4 * length (nat_digits 16 (nat ?n)))
        (int (digits_val 16 0 (nat_digits 16 (nat ?n)))))"
    unfolding hex using d by (intro signed_hex_str_to_int_prefixed) (simp_all add: hex_digits_def)
  also have "int (digits_val 16 0 (nat_digits 16 (nat ?n))) = ?n"
    using d n by simp
  finally show ?thesis
    by (simp add: signed_bin_str_to_int_def py_int_bits [OF assms])
qed

lemma signed_bin_str_to_int_8:
  assumes "list_all (is_digit 2) s" "length s = 8"
  shows "\<exists>v. signed_bin_str_to_int s = Inr v"
    and "\<not> (8 \<le> spec_unsigned_from_bits s \<and> spec_unsigned_from_bits s < 16)
      \<Longrightarrow> signed_bin_str_to_int s = Inr (spec_signed_from_bits s)"
proof -
  let ?n = "spec_unsigned_from_bits s"
  have ne: "s \<noteq> []"
    using assms(2) by auto
  note code = signed_bin_str_to_int_bits [OF assms(1) ne]
  show "\<exists>v. signed_bin_str_to_int s = Inr v"
    using code by blast
  have n: "0 \<le> ?n" "?n < 2 ^ 8"
    using spec_unsigned_from_bits_bound [OF assms(1)] assms(2) by simp_all
  have spec: "spec_signed_from_bits s = twos_complement 8 ?n"
    using spec_signed_twos_complement [OF assms(1) ne] assms(2) by simp
  show "signed_bin_str_to_int s = Inr (spec_signed_from_bits s)"
    if "\<not> (8 \<le> ?n \<and> ?n < 16)"
  proof (cases "?n < 8")
    case True
    then have "nat ?n < 16"
      using n by simp
    from length_nat_digits16(1) [OF this] show ?thesis
      using True n by (simp add: code spec twos_complement_def)
  next
    case False
    with that have "16 \<le> nat ?n" "nat ?n < 256"
      using n by simp_all
    from length_nat_digits16(2) [OF this] show ?thesis
      by (simp add: code spec)
  qed
qed

subsection \<open>KX1341211Data on digit strings\<close>

lemma Measurement_setup_binary:
  assumes "list_all (is_digit 2) chunk"
  shows "\<exists>m. Measurement_setup chunk = Inr m
    \<and> (no_sample_in_8_15 chunk \<longrightarrow> m = spec_measurement chunk)"
proof -
  consider "length chunk = 24" | "length chunk = 48" | "length chunk \<noteq> 24" "length chunk \<noteq> 48"
    by blast
  then show ?thesis
  proof cases
    case 1
    have b: "list_all (is_digit 2) (slice chunk a (a + 8))" for a
      using assms by (rule list_all_slice)
    have l: "length (slice chunk a (a + 8)) = 8" if "a \<le> 16" for a
      using that 1 by (simp add: length_slice)
    note s = signed_bin_str_to_int_8 [OF b l]
    from s(1) [of 0] s(1) [of 8] s(1) [of 16] obtain x y z where
      xyz: "signed_bin_str_to_int (slice chunk 0 8) = Inr x"
        "signed_bin_str_to_int (slice chunk 8 16) = Inr y"
        "signed_bin_str_to_int (slice chunk 16 24) = Inr z"
      by auto
    have "x = spec_signed_from_bits (slice chunk 0 8) \<and> y = spec_signed_from_bits (slice chunk 8 16)
        \<and> z = spec_signed_from_bits (slice chunk 16 24)" if "no_sample_in_8_15 chunk"
      using that 1 s(2) [of 0] s(2) [of 8] s(2) [of 16] xyz
      by (simp add: no_sample_in_8_15_def)
    then show ?thesis
      using 1 by (simp add: Measurement_setup_def xyz spec_measurement_def)
  next
    case 2
    have u: "py_int (slice chunk a (a + 16)) 2 = Inr (spec_unsigned_from_bits (slice chunk a (a + 16)))"
      if "a \<le> 32" for a
    proof -
      have "slice chunk a (a + 16) \<noteq> []"
        using that 2 by (intro slice_nonempty) simp_all
      then show ?thesis
        using assms by (intro py_int_bits list_all_slice)
    qed
    show ?thesis
      using 2 u [of 0] u [of 16] u [of 32]
      by (simp add: Measurement_setup_def spec_measurement_def)
  next
    case 3
    then show ?thesis
      by (simp add: Measurement_setup_def spec_measurement_def)
  qed
qed

lemma measurements_loop_binary:
  assumes "list_all (list_all (is_digit 2)) chunks"
  shows "\<exists>ms. measurements_loop chunks acc = Inr (acc @ ms) \<and> length ms = length chunks
    \<and> (\<forall>k < length chunks. no_sample_in_8_15 (chunks ! k) \<longrightarrow> ms ! k = spec_measurement (chunks ! k))"
  using assms
proof (induction chunks arbitrary: acc)
  case Nil
  then show ?case
    by simp
next
  case (Cons c chunks)
  then have c: "list_all (is_digit 2) c" and rest: "list_all (list_all (is_digit 2)) chunks"
    by simp_all
  from Measurement_setup_binary [OF c] obtain m where m: "Measurement_setup c = Inr m"
    "no_sample_in_8_15 c \<longrightarrow> m = spec_measurement c"
    by blast
  from Cons.IH [OF rest, of "acc @ [m]"] obtain ms where
    ms: "measurements_loop chunks (acc @ [m]) = Inr ((acc @ [m]) @ ms)" "length ms = length chunks"
      "\<forall>k < length chunks. no_sample_in_8_15 (chunks ! k) \<longrightarrow> ms ! k = spec_measurement (chunks ! k)"
    by blast
  have "\<forall>k < length (c # chunks). no_sample_in_8_15 ((c # chunks) ! k)
      \<longrightarrow> (m # ms) ! k = spec_measurement ((c # chunks) ! k)"
  proof (intro allI impI)
    fix k
    assume "k < length (c # chunks)" "no_sample_in_8_15 ((c # chunks) ! k)"
    then show "(m # ms) ! k = spec_measurement ((c # chunks) ! k)"
      using m(2) ms(3) by (cases k) simp_all
  qed
  moreover have "measurements_loop (c # chunks) acc = Inr (acc @ m # ms)"
    by (simp add: m(1) ms(1))
  ultimately show ?case
    using ms(2) by (intro exI [of _ "m # ms"]) simp
qed

lemma accel_chunks_closed:
  "accel_chunks A p c =
     map (\<lambda>k. slice A (k * c) (k * c + c)) [0 ..< (nat (int (length A) - p) + c - 1) div c]"
  by (simp add: accel_chunks_def range_step_def comp_def)

lemma slice_drop: "slice (drop n s) a b = slice s (n + a) (n + b)"
  by (simp add: slice_def add.commute)

lemma kx134_1211_dic_table:
  "list_all (\<lambda>n. kx134_1211_dic (py_hex (int n)) = Some (spec_data_rate ! n)) [0 ..< 16]"
  by code_simp

lemma kx134_1211_dic_code:
  assumes "0 \<le> c" "c < 16"
  shows "kx134_1211_dic (py_hex c) = Some (spec_data_rate ! nat c)"
proof -
  have "nat c \<in> set [0 ..< 16]"
    using assms by simp
  with kx134_1211_dic_table have "kx134_1211_dic (py_hex (int (nat c))) = Some (spec_data_rate ! nat c)"
    unfolding list_all_iff by blast
  then show ?thesis
    using assms(1) by simp
qed

lemma full_scale_range_of_code:
  assumes "0 \<le> c" "c < 4"
  shows "full_scale_range_of c = [8, 16, 32, 64] ! nat c"
proof -
  from assms consider "c = 0" | "c = 1" | "c = 2" | "c = 3"
    by linarith
  then show ?thesis
    by cases (simp_all add: full_scale_range_of_def)
qed

lemma binary_nth:
  assumes "list_all (is_digit 2) s" "i < length s"
  shows "s ! i = CHR ''0'' \<or> s ! i = CHR ''1''"
  using assms unfolding list_all_length is_digit2_iff by blast

lemma bits_value_bound:
  assumes "list_all (is_digit 2) s" "b \<le> a + n"
  shows "0 \<le> spec_unsigned_from_bits (slice s a b)" "spec_unsigned_from_bits (slice s a b) < 2 ^ n"
proof -
  have bin: "list_all (is_digit 2) (slice s a b)"
    using assms(1) by (rule list_all_slice)
  show "0 \<le> spec_unsigned_from_bits (slice s a b)"
    by (rule spec_unsigned_from_bits_bound(1) [OF bin])
  have "length (slice s a b) \<le> n"
    using assms(2) by (simp add: length_slice)
  then have "(2::int) ^ length (slice s a b) \<le> 2 ^ n"
    by (intro power_increasing) simp_all
  with spec_unsigned_from_bits_bound(2) [OF bin]
  show "spec_unsigned_from_bits (slice s a b) < 2 ^ n"
    by linarith
qed

lemma KX1341211Data_setup_hex:
  assumes "hex_digits raw" "12 \<le> length raw"
  shows "\<exists>ms. KX1341211Data_setup raw =
      Inr \<lparr>KX1341211Data.time_stamp = spec_unsigned_from_bits (slice (spec_hex_to_bits raw) 0 32),
           KX1341211Data.data_rate =
             spec_data_rate ! nat (spec_unsigned_from_bits (slice (spec_hex_to_bits raw) 32 36)),
           KX1341211Data.full_scale_range =
             [8, 16, 32, 64] ! nat (spec_unsigned_from_bits (slice (spec_hex_to_bits raw) 36 38)),
           KX1341211Data.corner_freq = Some
             (spec_data_rate ! nat (spec_unsigned_from_bits (slice (spec_hex_to_bits raw) 32 36))
               / (if spec_hex_to_bits raw ! 38 = CHR ''0'' then 9 else 2)),
           KX1341211Data.measurements = ms\<rparr>
    \<and> length ms =
        (nat (int (length (spec_hex_to_bits raw) - 48)
              - spec_unsigned_from_bits (slice (spec_hex_to_bits raw) 46 48) * 8)
          + (if spec_hex_to_bits raw ! 39 = CHR ''0'' then 8 else 16) * 3 - 1)
        div ((if spec_hex_to_bits raw ! 39 = CHR ''0'' then 8 else 16) * 3)
    \<and> (\<forall>k < length ms.
          no_sample_in_8_15 (slice (spec_hex_to_bits raw)
            (48 + k * ((if spec_hex_to_bits raw ! 39 = CHR ''0'' then 8 else 16) * 3))
            (48 + (k * ((if spec_hex_to_bits raw ! 39 = CHR ''0'' then 8 else 16) * 3)
                   + (if spec_hex_to_bits raw ! 39 = CHR ''0'' then 8 else 16) * 3)))
          \<longrightarrow> ms ! k = spec_measurement (slice (spec_hex_to_bits raw)
            (48 + k * ((if spec_hex_to_bits raw ! 39 = CHR ''0'' then 8 else 16) * 3))
            (48 + (k * ((if spec_hex_to_bits raw ! 39 = CHR ''0'' then 8 else 16) * 3)
                   + (if spec_hex_to_bits raw ! 39 = CHR ''0'' then 8 else 16) * 3))))"
proof -
  define B where "B = spec_hex_to_bits raw"
  define c :: nat where "c = (if B ! 39 = CHR ''0'' then 8 else 16) * 3"
  define p where "p = spec_unsigned_from_bits (slice B 46 48) * 8"
  define chunks where "chunks = accel_chunks (drop 48 B) p c"
  have bin: "list_all (is_digit 2) B"
    unfolding B_def by (rule spec_hex_to_bits_binary)
  have len: "48 \<le> length B"
    using assms(2) by (simp add: B_def)
  have to_bin: "hex_to_bin raw = Inr B"
    unfolding B_def using assms(1) by (rule hex_to_bin_hex)
  have fld: "py_int (slice B a b) 2 = Inr (spec_unsigned_from_bits (slice B a b))"
    if "a < b" "a < 48" for a b
  proof -
    have "slice B a b \<noteq> []"
      using that len by (intro slice_nonempty) simp_all
    then show ?thesis
      using bin by (intro py_int_bits list_all_slice)
  qed
  have rate: "kx134_1211_dic (py_hex (spec_unsigned_from_bits (slice B 32 36))) =
      Some (spec_data_rate ! nat (spec_unsigned_from_bits (slice B 32 36)))"
    using bits_value_bound [OF bin, of 36 32 4] by (intro kx134_1211_dic_code) simp_all
  have fsr: "full_scale_range_of (spec_unsigned_from_bits (slice B 36 38)) =
      [8, 16, 32, 64] ! nat (spec_unsigned_from_bits (slice B 36 38))"
    using bits_value_bound [OF bin, of 38 36 2] by (intro full_scale_range_of_code) simp_all
  have idx: "index B 38 = Inr (B ! 38)" "index B 39 = Inr (B ! 39)"
    using len by simp_all
  have in_range: "38 < length B" "39 < length B"
    using len by simp_all
  note b38 = binary_nth [OF bin in_range(1)] and b39 = binary_nth [OF bin in_range(2)]
  have res: "resolution_of (B ! 39) = Inr (if B ! 39 = CHR ''0'' then 8 else 16)"
    using b39 by (auto simp: resolution_of_def)
  have cf: "corner_freq_of (B ! 38) r = Some (r / (if B ! 38 = CHR ''0'' then 9 else 2))" for r
    using b38 by (auto simp: corner_freq_of_def)
  have chunks_eq: "chunks = map (\<lambda>k. slice B (48 + k * c) (48 + (k * c + c)))
      [0 ..< (nat (int (length B - 48) - p) + c - 1) div c]"
    unfolding chunks_def accel_chunks_closed by (simp add: slice_drop)
  have "list_all (list_all (is_digit 2)) chunks"
    unfolding chunks_eq by (simp add: list.pred_map comp_def list_all_slice [OF bin] list.pred_True)
  from measurements_loop_binary [OF this, of "[]"] obtain ms where
    ms: "measurements_loop chunks [] = Inr ms" "length ms = length chunks"
      "\<forall>k < length chunks. no_sample_in_8_15 (chunks ! k) \<longrightarrow> ms ! k = spec_measurement (chunks ! k)"
    by auto
  have result: "KX1341211Data_setup raw =
      Inr \<lparr>KX1341211Data.time_stamp = spec_unsigned_from_bits (slice B 0 32),
           KX1341211Data.data_rate = spec_data_rate ! nat (spec_unsigned_from_bits (slice B 32 36)),
           KX1341211Data.full_scale_range = [8, 16, 32, 64] ! nat (spec_unsigned_from_bits (slice B 36 38)),
           KX1341211Data.corner_freq = Some
             (spec_data_rate ! nat (spec_unsigned_from_bits (slice B 32 36))
               / (if B ! 38 = CHR ''0'' then 9 else 2)),
           KX1341211Data.measurements = ms\<rparr>"
    using ms(1) unfolding chunks_def p_def c_def
    by (simp add: KX1341211Data_setup_def to_bin fld rate fsr idx res cf Let_def)
  have n: "length ms = (nat (int (length B - 48) - p) + c - 1) div c"
    unfolding ms(2) chunks_eq by simp
  have "ms ! k = spec_measurement (slice B (48 + k * c) (48 + (k * c + c)))"
    if "k < length ms" "no_sample_in_8_15 (slice B (48 + k * c) (48 + (k * c + c)))" for k
  proof -
    have k: "k < length chunks"
      using that(1) ms(2) by simp
    then have "chunks ! k = slice B (48 + k * c) (48 + (k * c + c))"
      unfolding chunks_eq by simp
    with ms(3) k that(2) show ?thesis
      by simp
  qed
  with result n show ?thesis
    unfolding B_def [symmetric] c_def [symmetric] p_def [symmetric] by blast
qed

subsection \<open>Worked payloads\<close>

lemma AltitudeData_example:
  "AltitudeData_create_from_raw ''000003E800002710000003E800000BB8'' =
     Inr \<lparr>AltitudeData.time = 1000, pressure = 10, temperature = 1, altitude = 3\<rparr>"
  by code_simp

lemma AltitudeData_fields_example:
  "hex_digits ''00000001000007D000000BB800000FA0''"
  "spec_unsigned_from_bits (spec_hex_to_bits (slice ''00000001000007D000000BB800000FA0'' 0 8)) = 1"
  "spec_unsigned_from_bits (spec_hex_to_bits (slice ''00000001000007D000000BB800000FA0'' 8 16)) = 2000"
  "spec_unsigned_from_bits (spec_hex_to_bits (slice ''00000001000007D000000BB800000FA0'' 16 24)) = 3000"
  "spec_unsigned_from_bits (spec_hex_to_bits (slice ''00000001000007D000000BB800000FA0'' 24 32)) = 4000"
  by code_simp+

lemma field_examples:
  "hex_digits ''000003E8FFFF8000400020000''"
  "spec_unsigned_from_bits (spec_hex_to_bits (slice ''000003E8FFFF8000400020000'' 0 8)) = 1000"
  "spec_unsigned_from_bits (spec_hex_to_bits (slice ''000003E8FFFF8000400020000'' 8 12)) = 65535"
  "spec_unsigned_from_bits (spec_hex_to_bits (slice ''000003E8FFFF8000400020000'' 12 16)) = 32768"
  "spec_unsigned_from_bits (spec_hex_to_bits (slice ''000003E8FFFF8000400020000'' 16 20)) = 16384"
  "spec_unsigned_from_bits (spec_hex_to_bits (slice ''000003E8FFFF8000400020000'' 20 24)) = 8192"
  "hex_digits ''000003E8FFFF8000400020''"
  "spec_unsigned_from_bits (spec_hex_to_bits (slice ''000003E8FFFF8000400020'' 0 8)) = 1000"
  "spec_unsigned_from_bits (spec_hex_to_bits (slice ''000003E8FFFF8000400020'' 8 12)) = 65535"
  "spec_unsigned_from_bits (spec_hex_to_bits (slice ''000003E8FFFF8000400020'' 12 16)) = 32768"
  "spec_unsigned_from_bits (spec_hex_to_bits (slice ''000003E8FFFF8000400020'' 16 20)) = 16384"
  "spec_unsigned_from_bits (spec_hex_to_bits (slice ''000003E8FFFF8000400020'' 20 24)) = 32"
  by code_simp+

lemma spec_shift_examples:
  "spec_shift 65535 5 = 2047" "spec_shift 65535 3 = 8191"
  "spec_shift 65535 (- 3) = 524280" "spec_shift 65535 (- 5) = 2097120"
  "spec_shift 65535 (- 1) = 131070" "spec_shift 65535 1 = 32767"
  by (simp_all add: spec_shift_def drop_bit_eq_div)


lemma fixed_width_examples:
  "AltitudeData_create_from_raw ''000003E800002710000003E800000BB80'' =
     Inr \<lparr>AltitudeData.time = 1000, pressure = 10, temperature = 1, altitude = 3\<rparr>"
  "AccelerationData_create_from_raw ''000003E8FFFF8000400020000'' 12 =
     Inr \<lparr>AccelerationData.resolution = 12, time = 1000, fsr = Finite 2047,
          x_axis = Finite 2047, y_axis = Finite (2047 / 2), z_axis = Finite (2047 / 4)\<rparr>"
  "AngularVelocityData_init ''000003E8FFFF8000400020'' 12 =
     Inr \<lparr>AngularVelocityData.time_stamp = 1000, fsr = Finite 8191,
          x_velocity = Finite 8191, y_velocity = Finite (8191 / 2),
          z_velocity = Finite (8191 / 1024)\<rparr>"
proof -
  show "AltitudeData_create_from_raw ''000003E800002710000003E800000BB80'' =
     Inr \<lparr>AltitudeData.time = 1000, pressure = 10, temperature = 1, altitude = 3\<rparr>"
    by code_simp
  show "AccelerationData_create_from_raw ''000003E8FFFF8000400020000'' 12 =
     Inr \<lparr>AccelerationData.resolution = 12, time = 1000, fsr = Finite 2047,
          x_axis = Finite 2047, y_axis = Finite (2047 / 2), z_axis = Finite (2047 / 4)\<rparr>"
    by (simp add: AccelerationData_create_from_raw_hex field_examples spec_shift_examples)
  show "AngularVelocityData_init ''000003E8FFFF8000400020'' 12 =
     Inr \<lparr>AngularVelocityData.time_stamp = 1000, fsr = Finite 8191,
          x_velocity = Finite 8191, y_velocity = Finite (8191 / 2),
          z_velocity = Finite (8191 / 1024)\<rparr>"
    by (simp add: AngularVelocityData_init_hex field_examples spec_shift_examples)
qed




lemma short_example: "hex_digits ''000003E8''"
  by code_simp

section \<open>The signed decoder\<close>

text \<open>
  Claim C1. The signed decoder of a bitstring is two's complement over the exact width
  of the bitstring: the value of the bits after the first, less \<open>2 ^ (len - 1)\<close> when
  the first bit is set. \<^verbatim>\<open>signed_bin_str_to_int\<close> does not compute this: it passes the
  bitstring through \<^verbatim>\<open>hex(int(b, 2))\<close>, which forgets the leading zeros, so the width
  the sign is taken at is that of the shortest hexadecimal numeral of the value. The
  8-bit string \<^verbatim>\<open>00001000\<close> is 8 in two's complement; the code returns \<open>-8\<close>. The
  3-bit string \<^verbatim>\<open>101\<close> is \<open>-3\<close>; the code returns 5.
\<close>

theorem signed_bin_str_to_int_forgets_width:
  "signed_bin_str_to_int ''00001000'' = Inr (- 8) \<and> spec_signed_from_bits ''00001000'' = 8
   \<and> signed_bin_str_to_int ''101'' = Inr 5 \<and> spec_signed_from_bits ''101'' = - 3"
  by code_simp

section \<open>KX1341211Data\<close>

lemma KX1341211Data_setup_header_only:
  "KX1341211Data_setup ''000003E8A000'' =
     Inr \<lparr>KX1341211Data.time_stamp = 1000, data_rate = 800, full_scale_range = 8,
          corner_freq = Some (800 / 9), measurements = []\<rparr>"
  by code_simp

text \<open>
  Claim C10. Whenever \<^verbatim>\<open>KX1341211Data.setup\<close> returns a record, its full-scale range is
  one of 8, 16, 32 and 64: the code read from the two bits \<open>[36, 38)\<close> is below 4, so the
  branch that stores \<open>-1\<close> is never taken.
\<close>

theorem KX1341211Data_full_scale_range_valid:
  assumes "KX1341211Data_setup raw = Inr r"
  shows "KX1341211Data.full_scale_range r \<in> {8, 16, 32, 64}"
proof -
  from assms obtain raw_bin c where c: "py_int (slice raw_bin 36 38) 2 = Inr c"
    and r: "KX1341211Data.full_scale_range r = full_scale_range_of c"
    by (auto simp: KX1341211Data_setup_def bind_eq_Inr Let_def)
  have "length (slice raw_bin 36 38) \<le> 2"
    by (simp add: length_slice)
  then have "(2::int) ^ length (slice raw_bin 36 38) \<le> 2 ^ 2"
    by (intro power_increasing) simp_all
  with py_int2_bound [OF c] have "0 \<le> c" "c < 4"
    by simp_all
  then show ?thesis
    unfolding r by (rule full_scale_range_of_cases)
qed

theorem KX1341211Data_full_scale_range_valid_witness:
  "KX1341211Data_setup ''000003E8A000'' =
     Inr \<lparr>KX1341211Data.time_stamp = 1000, data_rate = 800, full_scale_range = 8,
          corner_freq = Some (800 / 9), measurements = []\<rparr>
   \<and> KX1341211Data.full_scale_range
       \<lparr>KX1341211Data.time_stamp = 1000, data_rate = 800, full_scale_range = 8,
        corner_freq = Some (800 / 9), measurements = []\<rparr> \<in> {8, 16, 32, 64}"
  using KX1341211Data_full_scale_range_valid [OF KX1341211Data_setup_header_only]
    KX1341211Data_setup_header_only
  by simp

section \<open>The bitstring of a hexadecimal string\<close>

text \<open>
  Claim C6, as the specification has it: \<^verbatim>\<open>hex_to_bin\<close> strips a leading \<^verbatim>\<open>0x\<close> or
  \<^verbatim>\<open>0X\<close>. The code strips the lower-case prefix only: on \<^verbatim>\<open>0X1F\<close> the \<^verbatim>\<open>X\<close> is looked
  up in the table and the call fails, although \<^verbatim>\<open>int('0X1F', 16)\<close> is 31 and the
  bitstring the specification expects is that of \<^verbatim>\<open>1F\<close>.
\<close>

theorem hex_to_bin_upper_prefix_fails:
  "hex_to_bin ''0X1F'' = Inl KeyError \<and> hex_str_to_int ''0X1F'' = Inr 31
   \<and> spec_hex_to_bits ''1F'' = ''00011111''"
  by code_simp

text \<open>
  Claim C6, amended. \<^verbatim>\<open>hex_to_bin\<close> maps every hexadecimal digit, of either case, to its
  four-bit expansion and concatenates the expansions in input order, with or without a
  leading lower-case \<^verbatim>\<open>0x\<close>, which it strips. An upper-case \<^verbatim>\<open>0X\<close> is not stripped: when
  a character other than a hexadecimal digit is left after the lower-case prefix, if
  any, has been taken off, the call fails with a \<^verbatim>\<open>KeyError\<close>. For every string that
  \<^verbatim>\<open>hex_to_bin\<close> accepts, prefixed or not, reading the bitstring in base 2 gives what
  \<^verbatim>\<open>hex_str_to_int\<close> gives on the string: the unsigned value of the bitstring, when that
  is not empty.
\<close>

theorem hex_to_bin_bits:
  "(hex_digits h \<longrightarrow> hex_to_bin h = Inr (spec_hex_to_bits h) \<and>
      hex_to_bin (''0x'' @ h) = Inr (spec_hex_to_bits h))
   \<and> (\<not> hex_digits (if take 2 h = ''0x'' then drop 2 h else h) \<longrightarrow> hex_to_bin h = Inl KeyError)
   \<and> (hex_to_bin h = Inr bits \<longrightarrow> py_int bits 2 = hex_str_to_int h \<and>
      (bits \<noteq> [] \<longrightarrow> hex_str_to_int h = Inr (spec_unsigned_from_bits bits)))"
proof (intro conjI impI)
  assume h: "hex_digits h"
  show "hex_to_bin h = Inr (spec_hex_to_bits h)"
    using h by (rule hex_to_bin_hex)
  show "hex_to_bin (''0x'' @ h) = Inr (spec_hex_to_bits h)"
    using h by (simp add: hex_to_bin_char)
next
  assume "\<not> hex_digits (if take 2 h = ''0x'' then drop 2 h else h)"
  then show "hex_to_bin h = Inl KeyError"
    by (simp add: hex_to_bin_char)
next
  assume b: "hex_to_bin h = Inr bits"
  show "py_int bits 2 = hex_str_to_int h"
    using b by (rule hex_to_bin_round_trip(1))
  show "hex_str_to_int h = Inr (spec_unsigned_from_bits bits)" if "bits \<noteq> []"
    using b that by (rule hex_to_bin_round_trip(2))
qed

theorem hex_to_bin_bits_witness:
  "hex_digits ''1F'' \<and> hex_to_bin ''1F'' = Inr ''00011111''
   \<and> hex_to_bin ''0x1F'' = Inr ''00011111''
   \<and> hex_str_to_int ''0x1F'' = Inr 31 \<and> spec_unsigned_from_bits ''00011111'' = 31
   \<and> \<not> hex_digits ''1G'' \<and> hex_to_bin ''1G'' = Inl KeyError"
proof -
  have 1: "hex_to_bin ''1F'' = Inr ''00011111''"
    using hex_to_bin_bits [of "''1F''" "''00011111''"] hex_examples(1,2) by simp
  have "hex_str_to_int ''0x1F'' = Inr (spec_unsigned_from_bits ''00011111'')"
    using hex_to_bin_bits [of "''0x1F''" "''00011111''"] prefixed_examples(1) by blast
  then have 2: "hex_str_to_int ''0x1F'' = Inr 31"
    by (simp only: hex_examples(3))
  have 3: "hex_to_bin ''1G'' = Inl KeyError"
    using hex_to_bin_bits [of "''1G''" "[]"] hex_examples(4) by simp
  show ?thesis
    using 1 2 3 hex_examples prefixed_examples(1) by simp
qed

section \<open>AltitudeData\<close>

text \<open>
  Claim C5, as the specification has it: the payload \<^verbatim>\<open>000003E800002710000003E800000BB8\<close>
  decodes to time 1000, pressure 10.0, temperature 10.0 and altitude 3.0. The third
  field of that payload is \<^verbatim>\<open>000003E8\<close>, that is 1000, and the temperature is
  1000 / 1000 = 1.0, not 10.0.
\<close>

theorem AltitudeData_example_temperature:
  "AltitudeData_create_from_raw ''000003E800002710000003E800000BB8'' \<noteq>
     Inr \<lparr>AltitudeData.time = 1000, pressure = 10, temperature = 10, altitude = 3\<rparr>"
  by (simp add: AltitudeData_example)

text \<open>
  Claim C5, amended. The payload \<^verbatim>\<open>000003E800002710000003E800000BB8\<close> decodes to time
  1000, pressure 10.0, temperature 1.0 and altitude 3.0. In general, for a payload of 32
  hexadecimal digits, the time is the unsigned 32-bit value of the first field, and
  pressure, temperature and altitude are the unsigned 32-bit values of the second,
  third and fourth field, each divided by 1000.
\<close>

theorem AltitudeData_fields:
  "AltitudeData_create_from_raw ''000003E800002710000003E800000BB8'' =
     Inr \<lparr>AltitudeData.time = 1000, pressure = 10, temperature = 1, altitude = 3\<rparr>
   \<and> (hex_digits raw \<and> length raw = 32 \<longrightarrow>
        AltitudeData_create_from_raw raw =
          Inr \<lparr>AltitudeData.time = spec_unsigned_from_bits (spec_hex_to_bits (slice raw 0 8)),
               pressure = real_of_int (spec_unsigned_from_bits (spec_hex_to_bits (slice raw 8 16))) / 1000,
               temperature = real_of_int (spec_unsigned_from_bits (spec_hex_to_bits (slice raw 16 24))) / 1000,
               altitude = real_of_int (spec_unsigned_from_bits (spec_hex_to_bits (slice raw 24 32))) / 1000\<rparr>)"
  by (simp add: AltitudeData_example AltitudeData_create_from_raw_hex)

theorem AltitudeData_fields_witness:
  "hex_digits ''00000001000007D000000BB800000FA0'' \<and> length ''00000001000007D000000BB800000FA0'' = 32
   \<and> AltitudeData_create_from_raw ''00000001000007D000000BB800000FA0'' =
       Inr \<lparr>AltitudeData.time = 1, pressure = 2, temperature = 3, altitude = 4\<rparr>"
  using AltitudeData_fields [of "''00000001000007D000000BB800000FA0''"]
  by (simp add: AltitudeData_fields_example)

section \<open>The length checks of the fixed-width decoders\<close>

text \<open>
  Claim C4, as the specification has it: a raw string longer or shorter than the
  declared length of the record is refused by each of the three decoders. The decoders
  cut the fields out of the raw string by position and check the length of each field,
  not of the whole string: a string that is too long gives every field its full width
  and is decoded, and \<^verbatim>\<open>AngularVelocityData\<close> checks no length at all, so that a string
  of 22 digits is decoded too, its last field read from the two digits that are left.
\<close>

theorem fixed_width_longer_accepted:
  "length ''000003E800002710000003E800000BB80'' = 33
   \<and> AltitudeData_create_from_raw ''000003E800002710000003E800000BB80'' =
       Inr \<lparr>AltitudeData.time = 1000, pressure = 10, temperature = 1, altitude = 3\<rparr>
   \<and> length ''000003E8FFFF8000400020000'' = 25
   \<and> AccelerationData_create_from_raw ''000003E8FFFF8000400020000'' 12 =
       Inr \<lparr>AccelerationData.resolution = 12, time = 1000, fsr = Finite 2047,
            x_axis = Finite 2047, y_axis = Finite (2047 / 2), z_axis = Finite (2047 / 4)\<rparr>
   \<and> length ''000003E8FFFF8000400020'' = 22
   \<and> AngularVelocityData_init ''000003E8FFFF8000400020'' 12 =
       Inr \<lparr>AngularVelocityData.time_stamp = 1000, fsr = Finite 8191,
            x_velocity = Finite 8191, y_velocity = Finite (8191 / 2),
            z_velocity = Finite (8191 / 1024)\<rparr>"
  by (simp add: fixed_width_examples)

text \<open>
  Claim C4, amended. \<^verbatim>\<open>AltitudeData\<close> and \<^verbatim>\<open>AccelerationData\<close> never return a record
  for a raw string shorter than 32 and 24 characters; the call ends in a \<^verbatim>\<open>ValueError\<close>
  (for \<^verbatim>\<open>AccelerationData\<close>, at a resolution up to 1000, so that the division of the
  full-scale range cannot fail first), that of the length check when all the characters
  are hexadecimal digits. Characters after the declared length are ignored by all three
  decoders: the result is that of the first 32, 24 and 24 characters.
  \<^verbatim>\<open>AngularVelocityData\<close> has no length check: it returns no record for a string of at
  most 20 characters, failing with the \<^verbatim>\<open>ValueError\<close> of \<^verbatim>\<open>int\<close> at a resolution up to
  1000; for more than 20 hexadecimal digits, at such a resolution, it returns the record
  whose fields are read at the usual nibble positions, the last one from the digits
  that are left of nibbles \<open>[20, 24)\<close>.
\<close>

theorem fixed_width_length_check:
  "(length raw < 32 \<longrightarrow>
      AltitudeData_create_from_raw raw \<in> {Inl LengthValueError, Inl LiteralValueError})
   \<and> (length raw < 32 \<and> hex_digits raw \<longrightarrow>
      AltitudeData_create_from_raw raw = Inl LengthValueError)
   \<and> AltitudeData_create_from_raw raw = AltitudeData_create_from_raw (take 32 raw)
   \<and> (length raw < 24 \<longrightarrow> (\<forall>r. AccelerationData_create_from_raw raw res \<noteq> Inr r))
   \<and> (length raw < 24 \<and> res \<le> 1000 \<longrightarrow>
      AccelerationData_create_from_raw raw res \<in> {Inl LengthValueError, Inl LiteralValueError})
   \<and> (length raw < 24 \<and> hex_digits raw \<and> res \<le> 1000 \<longrightarrow>
      AccelerationData_create_from_raw raw res = Inl LengthValueError)
   \<and> AccelerationData_create_from_raw raw res = AccelerationData_create_from_raw (take 24 raw) res
   \<and> (length raw \<le> 20 \<longrightarrow> (\<forall>r. AngularVelocityData_init raw res \<noteq> Inr r))
   \<and> (length raw \<le> 20 \<and> res \<le> 1000 \<longrightarrow>
      AngularVelocityData_init raw res = Inl LiteralValueError)
   \<and> (20 < length raw \<and> hex_digits raw \<and> res \<le> 1000 \<longrightarrow>
      AngularVelocityData_init raw res =
        (let f = spec_shift (spec_unsigned_from_bits (spec_hex_to_bits (slice raw 8 12))) (16 - (res + 1))
         in Inr \<lparr>AngularVelocityData.time_stamp =
                 spec_unsigned_from_bits (spec_hex_to_bits (slice raw 0 8)),
              AngularVelocityData.fsr = Finite f,
              AngularVelocityData.x_velocity = Finite
                (real_of_int (spec_unsigned_from_bits (spec_hex_to_bits (slice raw 12 16))) * (f / 2 ^ 15)),
              AngularVelocityData.y_velocity = Finite
                (real_of_int (spec_unsigned_from_bits (spec_hex_to_bits (slice raw 16 20))) * (f / 2 ^ 15)),
              AngularVelocityData.z_velocity = Finite
                (real_of_int (spec_unsigned_from_bits (spec_hex_to_bits (slice raw 20 24))) * (f / 2 ^ 15))\<rparr>))
   \<and> AngularVelocityData_init raw res = AngularVelocityData_init (take 24 raw) res"
proof (intro conjI impI allI)
  show "AltitudeData_create_from_raw raw \<in> {Inl LengthValueError, Inl LiteralValueError}"
    if "length raw < 32"
    using that by (rule AltitudeData_create_from_raw_short)
  show "AltitudeData_create_from_raw raw = Inl LengthValueError"
    if "length raw < 32 \<and> hex_digits raw"
    using that by (simp add: AltitudeData_create_from_raw_hex)
  show "AltitudeData_create_from_raw raw = AltitudeData_create_from_raw (take 32 raw)"
    by (simp add: AltitudeData_create_from_raw_take)
  show "AccelerationData_create_from_raw raw res \<noteq> Inr r" if "length raw < 24" for r
    using that by (rule AccelerationData_create_from_raw_no_record)
  show "AccelerationData_create_from_raw raw res \<in> {Inl LengthValueError, Inl LiteralValueError}"
    if "length raw < 24 \<and> res \<le> 1000"
    using that by (intro AccelerationData_create_from_raw_short) simp_all
  show "AccelerationData_create_from_raw raw res = Inl LengthValueError"
    if "length raw < 24 \<and> hex_digits raw \<and> res \<le> 1000"
    using that by (simp add: AccelerationData_create_from_raw_hex)
  show "AccelerationData_create_from_raw raw res = AccelerationData_create_from_raw (take 24 raw) res"
    by (simp add: AccelerationData_create_from_raw_take)
  show "AngularVelocityData_init raw res \<noteq> Inr r" if "length raw \<le> 20" for r
    using that by (rule AngularVelocityData_init_no_record)
  show "AngularVelocityData_init raw res = Inl LiteralValueError"
    if "length raw \<le> 20 \<and> res \<le> 1000"
    using that by (intro AngularVelocityData_init_short) simp_all
  show "AngularVelocityData_init raw res =
        (let f = spec_shift (spec_unsigned_from_bits (spec_hex_to_bits (slice raw 8 12))) (16 - (res + 1))
         in Inr \<lparr>AngularVelocityData.time_stamp =
                 spec_unsigned_from_bits (spec_hex_to_bits (slice raw 0 8)),
              AngularVelocityData.fsr = Finite f,
              AngularVelocityData.x_velocity = Finite
                (real_of_int (spec_unsigned_from_bits (spec_hex_to_bits (slice raw 12 16))) * (f / 2 ^ 15)),
              AngularVelocityData.y_velocity = Finite
                (real_of_int (spec_unsigned_from_bits (spec_hex_to_bits (slice raw 16 20))) * (f / 2 ^ 15)),
              AngularVelocityData.z_velocity = Finite
                (real_of_int (spec_unsigned_from_bits (spec_hex_to_bits (slice raw 20 24))) * (f / 2 ^ 15))\<rparr>)"
    if "20 < length raw \<and> hex_digits raw \<and> res \<le> 1000"
    using that by (intro AngularVelocityData_init_hex) simp_all
  show "AngularVelocityData_init raw res = AngularVelocityData_init (take 24 raw) res"
    by (simp add: AngularVelocityData_init_take)
qed

theorem fixed_width_length_check_witness:
  "length ''000003E8'' < 32 \<and> hex_digits ''000003E8'' \<and> (12::int) \<le> 1000
   \<and> AltitudeData_create_from_raw ''000003E8'' = Inl LengthValueError
   \<and> AccelerationData_create_from_raw ''000003E8'' 12 = Inl LengthValueError
   \<and> AngularVelocityData_init ''000003E8'' 12 = Inl LiteralValueError
   \<and> 20 < length ''000003E8FFFF8000400020'' \<and> hex_digits ''000003E8FFFF8000400020''
   \<and> AngularVelocityData_init ''000003E8FFFF8000400020'' 12 =
       Inr \<lparr>AngularVelocityData.time_stamp = 1000, fsr = Finite 8191,
            x_velocity = Finite 8191, y_velocity = Finite (8191 / 2),
            z_velocity = Finite (8191 / 1024)\<rparr>"
  using fixed_width_length_check [of "''000003E8''" 12] fixed_width_length_check [of "''000003E8FFFF8000400020''" 12]
  by (simp add: short_example field_examples spec_shift_examples)

section \<open>Full-scale range and axes\<close>



section \<open>GNSSLocationData\<close>



end
